theory Spec2Isabelle
  imports Complex_Main
begin

section \<open>Python values used by the job splitter\<close>

text \<open>
  Exceptions are values. The constructors are the exception classes the coordinator can
  meet; \<open>Exception\<close> stands for any instance of Python's class \<open>Exception\<close> raised by a
  caller-supplied callable, \<open>SystemExit\<close> and \<open>KeyboardInterrupt\<close> for the two classes
  that derive from \<open>BaseException\<close> only (an \<open>except Exception\<close> clause lets them pass).
\<close>

datatype exn =
    FileNotFoundError
  | ZeroDivisionError
  | IndexError
  | KeyError
  | ValueError
  | EOFError
  | BadZipFile
  | PicklingError
  | UnicodeDecodeError
  | NoOptionError
  | Exception string
  | SystemExit int
  | KeyboardInterrupt

text \<open>\<open>isinstance(e, Exception)\<close>: what the clause \<open>except Exception\<close> catches.\<close>

fun is_Exception :: "exn \<Rightarrow> bool" where
  "is_Exception (SystemExit _) = False"
| "is_Exception KeyboardInterrupt = False"
| "is_Exception _ = True"

text \<open>
  Python slicing \<open>xs[a:b]\<close> with integer bounds: a negative bound counts from the end,
  and both bounds are clamped to the list.
\<close>

definition py_norm :: "nat \<Rightarrow> int \<Rightarrow> nat" where
  "py_norm n i = (if i < 0 then nat (max (i + int n) 0) else min (nat i) n)"

definition py_slice :: "'a list \<Rightarrow> int \<Rightarrow> int \<Rightarrow> 'a list" where
  "py_slice xs a b =
     (let n = length xs; lo = py_norm n a; hi = py_norm n b
      in take (hi - lo) (drop lo xs))"

text \<open>\<open>xs[:b]\<close>\<close>

definition py_slice_to :: "'a list \<Rightarrow> int \<Rightarrow> 'a list" where
  "py_slice_to xs b = py_slice xs 0 b"

text \<open>\<open>xs[i]\<close>: raises \<open>IndexError\<close> out of range, negative indices count from the end.\<close>

definition py_index :: "'a list \<Rightarrow> int \<Rightarrow> exn + 'a" where
  "py_index xs i =
     (if 0 \<le> i \<and> i < int (length xs) then Inr (xs ! nat i)
      else if i < 0 \<and> - int (length xs) \<le> i then Inr (xs ! nat (int (length xs) + i))
      else Inl IndexError)"

text \<open>\<open>a // b\<close> on integers: floor division, \<open>ZeroDivisionError\<close> for a zero divisor.\<close>

definition py_floordiv :: "int \<Rightarrow> int \<Rightarrow> exn + int" where
  "py_floordiv a b = (if b = 0 then Inl ZeroDivisionError else Inr (a div b))"

section \<open>Partition planner (lines 178 and 201 to 220 of \<open>run_jobs\<close>)\<close>

text \<open>
  The machine roster as the JSON decoder returns it: an ordered dictionary from the
  machine name to the pair (thread weight, thread count).
\<close>

type_synonym roster = "(string \<times> int \<times> int) list"

text \<open>\<open>weights = tuple(thread_weight * threads for thread_weight, threads in machines.values())\<close>\<close>

definition weights_of :: "roster \<Rightarrow> int list" where
  "weights_of machines = map (\<lambda>(name, thread_weight, threads). thread_weight * threads) machines"

text \<open>
  \<open>START = sum(weights[:ID]) * lw // TOTAL\<close> and \<open>STOP = sum(weights[:ID + 1]) * lw // TOTAL\<close>,
  with \<open>TOTAL = sum(weights)\<close>.
\<close>

definition partition_bounds :: "int list \<Rightarrow> int \<Rightarrow> nat \<Rightarrow> exn + (int \<times> int)" where
  "partition_bounds weights ID lw =
     (let TOTAL = sum_list weights in
      case py_floordiv (sum_list (py_slice_to weights ID) * int lw) TOTAL of
        Inl e \<Rightarrow> Inl e
      | Inr START \<Rightarrow>
          (case py_floordiv (sum_list (py_slice_to weights (ID + 1)) * int lw) TOTAL of
             Inl e \<Rightarrow> Inl e
           | Inr STOP \<Rightarrow> Inr (START, STOP)))"

text \<open>
  The branch on \<open>ID\<close>: with an identity the shuffled list is cut to
  \<open>indexed_set[START:STOP]\<close>; without one it is kept whole, \<open>START = 0\<close> and \<open>STOP\<close>
  keeps its initial value \<open>len(working_set)\<close>. The result is the list, \<open>START\<close> and \<open>STOP\<close>.
\<close>

definition select_partition ::
  "int list \<Rightarrow> int option \<Rightarrow> nat \<Rightarrow> 'x list \<Rightarrow> exn + ('x list \<times> int \<times> int)" where
  "select_partition weights ID lw indexed_set =
     (case ID of
        None \<Rightarrow> Inr (indexed_set, 0, int lw)
      | Some i \<Rightarrow>
          (case partition_bounds weights i lw of
             Inl e \<Rightarrow> Inl e
           | Inr (START, STOP) \<Rightarrow> Inr (py_slice indexed_set START STOP, START, STOP)))"

text \<open>
  The planner's formula in the words of the specification: the boundary below machine
  \<open>k\<close> is \<open>floor(sum(W[0:k]) * L / TOTAL)\<close>.
\<close>

definition boundary :: "int list \<Rightarrow> nat \<Rightarrow> nat \<Rightarrow> int" where
  "boundary W L k = (sum_list (take k W) * int L) div sum_list W"

text \<open>The half-open range of positions that machine \<open>i\<close> is given by the code.\<close>

definition range_of :: "int list \<Rightarrow> nat \<Rightarrow> nat \<Rightarrow> int set" where
  "range_of W L i =
     (case partition_bounds W (int i) L of
        Inl e \<Rightarrow> {}
      | Inr (START, STOP) \<Rightarrow> {START..<STOP})"

section \<open>Files, configuration and the library boundary\<close>

text \<open>
  The file system maps a path to the bytes of the file, if there is one. Two paths name
  the same file exactly when they are the same string. A file written through \<open>gzip\<close>
  is represented by the bytes it decompresses to (opening it in append mode adds a member,
  and the members decompress to the concatenation). Text and bytes are both strings here;
  the library functions \<open>read_text\<close> and \<open>write_text\<close> below pass from one to the other.
\<close>

type_synonym fs = "string \<Rightarrow> string option"

definition MACHINES_CONFIG :: string where "MACHINES_CONFIG = ''machines.json''"
definition CSV_HEADER :: string where "CSV_HEADER = ''header.csv''"
definition RUNNER_CONFIG :: string where "RUNNER_CONFIG = ''runner.config''"
definition LOG_TEMPLATE :: string where "LOG_TEMPLATE = ''logging.template''"
definition RESULTS_CSV :: string where "RESULTS_CSV = ''results.csv''"

definition CONFIGS :: "string list" where
  "CONFIGS = [MACHINES_CONFIG, CSV_HEADER, RUNNER_CONFIG, LOG_TEMPLATE]"

text \<open>
  \<open>CONFIG_TEMPLATES\<close>; its third entry is the text of \<open>defaults/runner.config\<close>, a file
  of the package that is read when the module is loaded, taken here as a parameter.
\<close>

definition CONFIG_TEMPLATES :: "string \<Rightarrow> string list" where
  "CONFIG_TEMPLATES default_text =
     [''{'' @ [CHR 0x0A, CHR 0x09, CHR 0x22] @ ''example_machine'' @ [CHR 0x22]
        @ '': [example_one_core_weight, example_cores_used]'' @ [CHR 0x0A] @ ''}'',
      [],
      default_text,
      []]"

text \<open>
  The resolved configuration is the parser object: for a section and an option, the text
  of the option's value, if the option is there. \<open>run_jobs\<close> converts the values it needs
  each time it needs them.
\<close>

type_synonym config = "string \<times> string \<Rightarrow> string option"

text \<open>
  An indexed job \<open>(idx, (*items, copy(random_obj), config))\<close>: the original position, the
  job's arguments, the state of its private random source and the resolved configuration.
\<close>

type_synonym ('job, 'g) indexed = "nat \<times> 'job \<times> 'g \<times> config"

text \<open>
  What \<open>run_jobs\<close> calls outside the repository, as parameters:
  \<^item> the digest;
  \<^item> \<open>pickle.dumps\<close> of the tuple of extras: its bytes depend on the value and on the
    state of the interpreter that holds it (the hash seed, which decides the order in which
    a set is written, and which of the objects are shared), and it raises for a value
    that cannot be pickled;
  \<^item> the constructor of a seeded generator (its value is the generator's internal state)
    and \<open>Random.shuffle\<close> (it returns the shuffled list and the state it leaves the
    generator in);
  \<^item> the JSON decoder, and the configuration parser, applied to the default text and to the
    bytes of \<open>runner.config\<close>;
  \<^item> \<open>read_text\<close>, the text that reading a file in text mode gives for its bytes (line ends
    translated, \<open>UnicodeDecodeError\<close> for bytes that do not decode), and \<open>write_text\<close>, the
    bytes that writing a text in text mode gives;
  \<^item> the parser's conversion of a value to a truth value and \<open>int\<close> on a string (\<open>None\<close>
    where they raise \<open>ValueError\<close>);
  \<^item> the constructor \<open>Style\<close> of the module \<open>progress\<close>, which is not among the source
    files (\<open>None\<close> where it returns);
  \<^item> \<open>cpu_count\<close>, the successive readings of \<open>time()\<close> (reading 0 is \<open>start_time\<close>,
    reading \<open>k\<close> the one taken while completion \<open>k\<close> is handled) and the order in which the
    worker pool hands back the submitted jobs.
\<close>

record ('job, 'g) library =
  sha3_512 :: "string \<Rightarrow> string"
  dumps :: "nat \<Rightarrow> 'job list list \<Rightarrow> exn + string"
  Random :: "string \<Rightarrow> 'g"
  shuffle :: "'g \<Rightarrow> ('job, 'g) indexed list \<Rightarrow> ('job, 'g) indexed list \<times> 'g"
  json_decode :: "string \<Rightarrow> exn + roster"
  read_config :: "string \<Rightarrow> string \<Rightarrow> exn + config"
  default_config :: string
  read_text :: "string \<Rightarrow> exn + string"
  write_text :: "string \<Rightarrow> string"
  boolean_of :: "string \<Rightarrow> bool option"
  py_int :: "string \<Rightarrow> int option"
  Style :: "int \<Rightarrow> exn option"
  cpu_count :: int
  clock :: "nat \<Rightarrow> real"
  arrival :: "('job, 'g) indexed list \<Rightarrow> ('job, 'g) indexed list"

text \<open>A column of a result row: a time stamp, a job id or one of the job's own values.\<close>

datatype 'v cell = Time real | Job_id nat | Val 'v

text \<open>
  What a call of the reduction function does. It is given the objects \<open>current\<close> and
  \<open>result\<close> themselves and may change them in place before it returns or raises: the
  outcome is the value returned or the exception raised, \<open>current_left\<close> is the state it
  leaves the object \<open>current\<close> in and \<open>result_left\<close> the values it leaves in the object
  \<open>result\<close> (when \<open>result\<close> is not \<open>None\<close>).
\<close>

record ('acc, 'v) reduction =
  outcome :: "exn + 'acc"
  current_left :: 'acc
  result_left :: "'v list"

text \<open>
  The callables the caller passes to \<open>run_jobs\<close>. A job returns a sequence of values or
  \<open>None\<close>, or raises. With them, the two library functions whose argument types depend on
  the job's values: \<open>dis.distb\<close> writing the disassembly for the exception being handled
  (\<open>None\<close> where it raises), and the bytes that \<open>csv.writer(f).writerow\<close> writes for a row.
\<close>

record ('job, 'g, 'v, 'acc) hooks =
  job :: "'job \<Rightarrow> 'g \<Rightarrow> config \<Rightarrow> exn + 'v list option"
  setup_function :: "config \<Rightarrow> exn option"
  parse_function :: "config \<Rightarrow> 'v cell list \<Rightarrow> exn option"
  reduce_function :: "'acc \<Rightarrow> 'v list option \<Rightarrow> ('acc, 'v) reduction"
  distb :: "exn \<Rightarrow> string option"
  writerow :: "'v cell list \<Rightarrow> string"

text \<open>What the operator is shown, and what the logger \<open>JobRunner\<close> is given.\<close>

datatype prompt =
    Which_node "string list"
  | Verify string string nat int int nat

datatype log_entry =
    Checking_configuration_files
  | Loaded_machines roster
  | Instantiated_without_ID
  | Instantiated_as_ID int
  | Entropy string
  | Using_override_seed string
  | Jobs_queued nat int int nat
  | Worker_cores int
  | Answer_received nat nat
  | Reduce_function_messed_up exn
  | Disassembly string

text \<open>
  The world \<open>run_jobs\<close> acts on: the files, the state of the interpreter that pickling
  depends on, the console responses still to be read, the prompts shown so far, the log,
  and the jobs handed to the worker pool (\<open>None\<close> as long as no pool has been given any).
\<close>

record ('job, 'g) world =
  files :: fs
  interpreter :: nat
  inputs :: "string list"
  console :: "prompt list"
  log :: "log_entry list"
  submitted :: "('job, 'g) indexed list option"

section \<open>Reading the configuration\<close>

text \<open>\<open>config[section][key]\<close>\<close>

definition config_get :: "config \<Rightarrow> string \<Rightarrow> string \<Rightarrow> exn + string" where
  "config_get cfg section key =
     (case cfg (section, key) of None \<Rightarrow> Inl KeyError | Some v \<Rightarrow> Inr v)"

text \<open>\<open>config.getboolean(section, key)\<close>\<close>

definition getboolean ::
  "('job, 'g) library \<Rightarrow> config \<Rightarrow> string \<Rightarrow> string \<Rightarrow> exn + bool" where
  "getboolean lib cfg section key =
     (case cfg (section, key) of
        None \<Rightarrow> Inl NoOptionError
      | Some v \<Rightarrow> (case boolean_of lib v of None \<Rightarrow> Inl ValueError | Some b \<Rightarrow> Inr b))"

text \<open>\<open>int(config[section][key])\<close>\<close>

definition config_int ::
  "('job, 'g) library \<Rightarrow> config \<Rightarrow> string \<Rightarrow> string \<Rightarrow> exn + int" where
  "config_int lib cfg section key =
     (case config_get cfg section key of
        Inl e \<Rightarrow> Inl e
      | Inr v \<Rightarrow> (case py_int lib v of None \<Rightarrow> Inl ValueError | Some i \<Rightarrow> Inr i))"

section \<open>Entropy deriver and configuration files\<close>

definition read_bytes :: "fs \<Rightarrow> string \<Rightarrow> exn + string" where
  "read_bytes fs name = (case fs name of None \<Rightarrow> Inl FileNotFoundError | Some content \<Rightarrow> Inr content)"

text \<open>
  The loop of \<open>get_entropy\<close>: \<open>hash_obj.update(name.read_bytes())\<close> for each configuration
  file. The hash object is represented by the bytes it has been fed.
\<close>

fun feed_configs :: "fs \<Rightarrow> string list \<Rightarrow> string \<Rightarrow> exn + string" where
  "feed_configs fs [] fed = Inr fed"
| "feed_configs fs (name # names) fed =
     (case read_bytes fs name of
        Inl e \<Rightarrow> Inl e
      | Inr content \<Rightarrow> feed_configs fs names (fed @ content))"

text \<open>\<open>get_entropy\<close>, run in an interpreter in the state \<open>state\<close>.\<close>

definition get_entropy ::
  "('job, 'g) library \<Rightarrow> fs \<Rightarrow> nat \<Rightarrow> 'job list list \<Rightarrow> exn + string" where
  "get_entropy lib fs state extras =
     (case feed_configs fs CONFIGS [] of
        Inl e \<Rightarrow> Inl e
      | Inr fed \<Rightarrow>
          (case dumps lib state extras of
             Inl e \<Rightarrow> Inl e
           | Inr pickled \<Rightarrow> Inr (sha3_512 lib (fed @ pickled))))"

text \<open>
  The loop of \<open>make_config_files\<close>: a file that is absent is created with its template
  (\<open>open('x')\<close>), and the flag records that one was.
\<close>

fun create_missing ::
  "(string \<Rightarrow> string) \<Rightarrow> (string \<times> string) list \<Rightarrow> fs \<Rightarrow> bool \<Rightarrow> fs \<times> bool" where
  "create_missing encode [] fs any_triggered = (fs, any_triggered)"
| "create_missing encode ((name, template) # rest) fs any_triggered =
     (case fs name of
        Some _ \<Rightarrow> create_missing encode rest fs any_triggered
      | None \<Rightarrow> create_missing encode rest (fs(name \<mapsto> encode template)) True)"

definition make_config_files :: "('job, 'g) library \<Rightarrow> fs \<Rightarrow> exn option \<times> fs" where
  "make_config_files lib fs =
     (case create_missing (write_text lib) (zip CONFIGS (CONFIG_TEMPLATES (default_config lib)))
             fs False of
        (fs', any_triggered) \<Rightarrow> (if any_triggered then Some FileNotFoundError else None, fs'))"

text \<open>\<open>get_machines\<close>: the file is read in text mode and decoded as JSON.\<close>

definition get_machines :: "('job, 'g) library \<Rightarrow> fs \<Rightarrow> exn + roster" where
  "get_machines lib fs =
     (case read_bytes fs MACHINES_CONFIG of
        Inl e \<Rightarrow> Inl e
      | Inr bytes \<Rightarrow>
          (case read_text lib bytes of
             Inl e \<Rightarrow> Inl e
           | Inr text \<Rightarrow> json_decode lib text))"

text \<open>The numeric level that \<open>get_config\<close> puts in the place of a symbolic one.\<close>

definition level_number :: "string \<Rightarrow> string" where
  "level_number level =
     (if level = ''CRITICAL'' then ''50''
      else if level = ''ERROR'' then ''40''
      else if level = ''WARNING'' then ''30''
      else if level = ''INFO'' then ''20''
      else if level = ''DEBUG'' then ''10''
      else if level = ''NOTSET'' then ''0''
      else level)"

text \<open>
  \<open>get_config\<close>: \<open>config.read(RUNNER_CONFIG)\<close> skips a file that does not exist; the level of
  the section \<open>logging\<close> is replaced.
\<close>

definition get_config :: "('job, 'g) library \<Rightarrow> fs \<Rightarrow> exn + config" where
  "get_config lib fs =
     (case read_config lib (default_config lib)
             (case fs RUNNER_CONFIG of None \<Rightarrow> [] | Some bytes \<Rightarrow> bytes) of
        Inl e \<Rightarrow> Inl e
      | Inr cfg \<Rightarrow>
          (case config_get cfg ''logging'' ''level'' of
             Inl e \<Rightarrow> Inl e
           | Inr level \<Rightarrow> Inr (cfg((''logging'', ''level'') \<mapsto> level_number level))))"

section \<open>Console dialogues\<close>

text \<open>
  The loop \<open>while True: resp = input(dialog) ...\<close>: the responses still to come, the
  outcome, the responses left and the number of times the dialogue was shown. \<open>input\<close>
  raises \<open>EOFError\<close> when no response is left.
\<close>

fun which_node ::
  "(string \<Rightarrow> int option) \<Rightarrow> string list \<Rightarrow> (exn + int option) \<times> string list \<times> nat" where
  "which_node to_int [] = (Inl EOFError, [], 1)"
| "which_node to_int (resp # rest) =
     (if resp = ''N/A'' then (Inr None, rest, 1)
      else (case to_int resp of
              Some ID \<Rightarrow> (Inr (Some ID), rest, 1)
            | None \<Rightarrow> (case which_node to_int rest of (r, rest', shown) \<Rightarrow> (r, rest', Suc shown))))"

text \<open>\<open>response.lower().startswith(c)\<close> for a lower-case ASCII letter \<open>c\<close> with capital \<open>C\<close>.\<close>

definition lower_startswith :: "string \<Rightarrow> char \<Rightarrow> char \<Rightarrow> bool" where
  "lower_startswith response c C = (case response of [] \<Rightarrow> False | x # _ \<Rightarrow> x = c \<or> x = C)"

text \<open>
  The loop \<open>while not response.lower().startswith('y')\<close>: \<open>exit(1)\<close> on a response that
  starts with \<open>n\<close>; the outcome, the responses left and the number of prompts shown.
\<close>

fun verify_loop :: "string list \<Rightarrow> exn option \<times> string list \<times> nat" where
  "verify_loop [] = (Some EOFError, [], 1)"
| "verify_loop (response # rest) =
     (if lower_startswith response (CHR ''n'') (CHR ''N'') then (Some (SystemExit 1), rest, 1)
      else if lower_startswith response (CHR ''y'') (CHR ''Y'') then (None, rest, 1)
      else (case verify_loop rest of (r, rest', shown) \<Rightarrow> (r, rest', Suc shown)))"

section \<open>The coordinator \<open>run_jobs\<close>: from the configuration to the queued jobs\<close>

text \<open>
  Lines 172 to 180: the configuration files are checked, the roster and the configuration
  are loaded.
\<close>

definition load_configuration ::
  "('job, 'g) library \<Rightarrow> ('job, 'g) world \<Rightarrow> (exn + roster \<times> config) \<times> ('job, 'g) world" where
  "load_configuration lib w =
     (let w1 = w\<lparr>log := log w @ [Checking_configuration_files]\<rparr> in
      case make_config_files lib (files w1) of
        (Some e, fs') \<Rightarrow> (Inl e, w1\<lparr>files := fs'\<rparr>)
      | (None, fs') \<Rightarrow>
          (let w2 = w1\<lparr>files := fs'\<rparr> in
           case get_machines lib (files w2) of
             Inl e \<Rightarrow> (Inl e, w2)
           | Inr machines \<Rightarrow>
               (let w3 = w2\<lparr>log := log w2 @ [Loaded_machines machines]\<rparr> in
                case get_config lib (files w3) of
                  Inl e \<Rightarrow> (Inl e, w3)
                | Inr cfg \<Rightarrow> (Inr (machines, cfg), w3))))"

text \<open>Lines 182 to 199: the machine identity, \<open>None\<close> for the response \<open>N/A\<close>.\<close>

definition ask_identity ::
  "('job, 'g) library \<Rightarrow> string list \<Rightarrow> ('job, 'g) world \<Rightarrow> (exn + int option) \<times> ('job, 'g) world" where
  "ask_identity lib names w =
     (case which_node (py_int lib) (inputs w) of
        (r, rest, shown) \<Rightarrow>
          (let w1 = w\<lparr>inputs := rest, console := console w @ replicate shown (Which_node names)\<rparr> in
           case r of
             Inl e \<Rightarrow> (Inl e, w1)
           | Inr None \<Rightarrow> (Inr None, w1\<lparr>log := log w1 @ [Instantiated_without_ID]\<rparr>)
           | Inr (Some ID) \<Rightarrow> (Inr (Some ID), w1\<lparr>log := log w1 @ [Instantiated_as_ID ID]\<rparr>)))"

text \<open>
  \<open>seed = override_seed or entropy\<close>: the override is used when it is neither \<open>None\<close> nor
  empty. \<open>seed is override_seed\<close> holds in exactly that case.
\<close>

definition choose_seed :: "string option \<Rightarrow> string \<Rightarrow> string" where
  "choose_seed override_seed entropy =
     (case override_seed of
        None \<Rightarrow> entropy
      | Some s \<Rightarrow> if s = [] then entropy else s)"

definition seed_is_override :: "string option \<Rightarrow> bool" where
  "seed_is_override override_seed = (case override_seed of None \<Rightarrow> False | Some s \<Rightarrow> s \<noteq> [])"

text \<open>\<open>copy(random_obj)\<close>: a new generator in the state \<open>random_obj\<close> is in at that moment.\<close>

definition copy_random :: "'g \<Rightarrow> 'g" where
  "copy_random random_obj = random_obj"

text \<open>Line 212: \<open>[(idx, (*items, copy(random_obj), config)) for idx, items in enumerate(working_set)]\<close>\<close>

definition index_working_set :: "'g \<Rightarrow> config \<Rightarrow> 'job list \<Rightarrow> ('job, 'g) indexed list" where
  "index_working_set random_obj cfg working_set =
     map (\<lambda>(idx, items). (idx, items, copy_random random_obj, cfg)) (enumerate 0 working_set)"

text \<open>Lines 211 to 213: the generator is seeded, the copies are taken, then the list is shuffled.\<close>

definition shuffle_working_set ::
  "('job, 'g) library \<Rightarrow> string \<Rightarrow> config \<Rightarrow> 'job list \<Rightarrow> ('job, 'g) indexed list" where
  "shuffle_working_set lib seed cfg working_set =
     (let random_obj = Random lib seed;
          indexed_set = index_working_set random_obj cfg working_set
      in fst (shuffle lib random_obj indexed_set))"

text \<open>
  The values \<open>run_jobs\<close> holds once the jobs are queued: the configuration, the identity,
  the entropy, the seed, the shuffled list, its cut \<open>indexed_set\<close>, \<open>START\<close>, \<open>STOP\<close> and
  \<open>lw = len(working_set)\<close>.
\<close>

record ('job, 'g) plan =
  p_config :: config
  p_ID :: "int option"
  p_entropy :: string
  p_seed :: string
  p_shuffled :: "('job, 'g) indexed list"
  p_indexed_set :: "('job, 'g) indexed list"
  p_START :: int
  p_STOP :: int
  p_lw :: nat

text \<open>Lines 201 to 220.\<close>

definition plan_partition ::
  "('job, 'g) library \<Rightarrow> 'job list \<Rightarrow> string option \<Rightarrow> roster \<Rightarrow> config \<Rightarrow> int option
     \<Rightarrow> ('job, 'g) world \<Rightarrow> (exn + ('job, 'g) plan) \<times> ('job, 'g) world" where
  "plan_partition lib working_set override_seed machines cfg ID w =
     (let weights = weights_of machines; lw = length working_set in
      case get_entropy lib (files w) (interpreter w) [working_set] of
        Inl e \<Rightarrow> (Inl e, w)
      | Inr entropy \<Rightarrow>
          (let w1 = w\<lparr>log := log w @ [Entropy entropy]\<rparr>;
               seed = choose_seed override_seed entropy;
               w2 = (if seed_is_override override_seed
                     then w1\<lparr>log := log w1 @ [Using_override_seed seed]\<rparr> else w1);
               shuffled = shuffle_working_set lib seed cfg working_set
           in case select_partition weights ID lw shuffled of
                Inl e \<Rightarrow> (Inl e, w2)
              | Inr (indexed_set, START, STOP) \<Rightarrow>
                  (Inr \<lparr>p_config = cfg, p_ID = ID, p_entropy = entropy, p_seed = seed,
                        p_shuffled = shuffled, p_indexed_set = indexed_set,
                        p_START = START, p_STOP = STOP, p_lw = lw\<rparr>, w2)))"

text \<open>
  \<open>names[ID]\<close> and \<open>machines[names[ID]][1]\<close>: the name and the thread count of the roster
  entry at position \<open>ID\<close> (the names of an ordered dictionary are distinct); without an
  identity, \<open>N/A\<close> and \<open>cpu_count()\<close>.
\<close>

definition identity_entry :: "('job, 'g) library \<Rightarrow> roster \<Rightarrow> int option \<Rightarrow> exn + string \<times> int" where
  "identity_entry lib machines ID =
     (case ID of
        None \<Rightarrow> Inr (''N/A'', cpu_count lib)
      | Some i \<Rightarrow>
          (case py_index machines i of
             Inl e \<Rightarrow> Inl e
           | Inr (name, thread_weight, threads) \<Rightarrow> Inr (name, threads)))"

text \<open>
  Lines 221 to 236: the operator confirms; the result is \<open>num_cores\<close>. The name is looked
  up when the question is formatted, before it is shown.
\<close>

definition confirm ::
  "('job, 'g) library \<Rightarrow> roster \<Rightarrow> ('job, 'g) plan \<Rightarrow> ('job, 'g) world \<Rightarrow> (exn + int) \<times> ('job, 'g) world" where
  "confirm lib machines p w =
     (case identity_entry lib machines (p_ID p) of
        Inl e \<Rightarrow> (Inl e, w)
      | Inr (name, num_cores) \<Rightarrow>
          (case verify_loop (inputs w) of
             (r, rest, shown) \<Rightarrow>
               (let question = Verify name (p_entropy p) (length (p_indexed_set p))
                                 (p_START p) (p_STOP p - 1) (p_lw p);
                    w1 = w\<lparr>inputs := rest, console := console w @ replicate shown question\<rparr>
                in case r of
                     Some e \<Rightarrow> (Inl e, w1)
                   | None \<Rightarrow>
                       (Inr num_cores,
                        w1\<lparr>log := log w1 @ [Jobs_queued (length (p_indexed_set p)) (p_START p)
                                               (p_STOP p - 1) (p_lw p),
                                             Worker_cores num_cores]\<rparr>))))"

text \<open>Lines 172 to 236 together.\<close>

definition prepare ::
  "('job, 'g) library \<Rightarrow> 'job list \<Rightarrow> string option \<Rightarrow> ('job, 'g) world
     \<Rightarrow> (exn + ('job, 'g) plan \<times> int) \<times> ('job, 'g) world" where
  "prepare lib working_set override_seed w =
     (case load_configuration lib w of
        (Inl e, w1) \<Rightarrow> (Inl e, w1)
      | (Inr (machines, cfg), w1) \<Rightarrow>
          (case ask_identity lib (map fst machines) w1 of
             (Inl e, w2) \<Rightarrow> (Inl e, w2)
           | (Inr ID, w2) \<Rightarrow>
               (case plan_partition lib working_set override_seed machines cfg ID w2 of
                  (Inl e, w3) \<Rightarrow> (Inl e, w3)
                | (Inr p, w3) \<Rightarrow>
                    (case confirm lib machines p w3 of
                       (Inl e, w4) \<Rightarrow> (Inl e, w4)
                     | (Inr num_cores, w4) \<Rightarrow> (Inr (p, num_cores), w4)))))"

section \<open>The coordinator \<open>run_jobs\<close>: running the jobs and persisting the results\<close>

text \<open>\<open>_indexed_job\<close> under \<open>partial(_indexed_job, job)\<close>, applied to one element of \<open>indexed_set\<close>.\<close>

definition indexed_job :: "('job \<Rightarrow> 'g \<Rightarrow> config \<Rightarrow> 'r) \<Rightarrow> ('job, 'g) indexed \<Rightarrow> nat \<times> 'r" where
  "indexed_job f x = (case x of (index, items, random_obj, cfg) \<Rightarrow> (index, f items random_obj cfg))"

text \<open>
  Lines 243 and 244: \<open>results.csv\<close> is opened for writing (and so emptied), then the header
  file is read as text and written, with a newline, as text.
\<close>

definition write_header :: "('job, 'g) library \<Rightarrow> fs \<Rightarrow> exn option \<times> fs" where
  "write_header lib fs =
     (let opened = fs(RESULTS_CSV \<mapsto> []) in
      case read_bytes opened CSV_HEADER of
        Inl e \<Rightarrow> (Some e, opened)
      | Inr bytes \<Rightarrow>
          (case read_text lib bytes of
             Inl e \<Rightarrow> (Some e, opened)
           | Inr header \<Rightarrow> (None, opened(RESULTS_CSV \<mapsto> write_text lib (header @ [CHR 0x0A])))))"

text \<open>
  Lines 253 to 255: the keyword arguments of \<open>istarmap_unordered\<close>, evaluated in this order
  once the pool exists and before it is given the jobs.
\<close>

definition pool_options :: "('job, 'g) library \<Rightarrow> config \<Rightarrow> exn option" where
  "pool_options lib cfg =
     (case config_int lib cfg ''ProgressPool'' ''chunksize'' of
        Inl e \<Rightarrow> Some e
      | Inr chunksize \<Rightarrow>
          (case config_int lib cfg ''ProgressPool'' ''bar_length'' of
             Inl e \<Rightarrow> Some e
           | Inr bar_length \<Rightarrow>
               (case config_int lib cfg ''ProgressPool'' ''style'' of
                  Inl e \<Rightarrow> Some e
                | Inr style \<Rightarrow> Style lib style)))"

text \<open>
  Lines 282 to 290: the list \<open>meta\<close>, built by the four conditional appends, each under a
  call of \<open>getboolean\<close>.
\<close>

definition metadata ::
  "('job, 'g) library \<Rightarrow> config \<Rightarrow> real \<Rightarrow> real \<Rightarrow> real \<Rightarrow> nat \<Rightarrow> exn + 'v cell list" where
  "metadata lib cfg start_time last_time new_time job_id =
     (let meta0 = [] in
      case getboolean lib cfg ''results'' ''include_start_time'' of
        Inl e \<Rightarrow> Inl e
      | Inr with_start \<Rightarrow>
          (let meta1 = (if with_start then meta0 @ [Time start_time] else meta0) in
           case getboolean lib cfg ''results'' ''include_job_interval'' of
             Inl e \<Rightarrow> Inl e
           | Inr with_interval \<Rightarrow>
               (let meta2 = (if with_interval then meta1 @ [Time (new_time - last_time)] else meta1) in
                case getboolean lib cfg ''results'' ''include_job_done_time'' of
                  Inl e \<Rightarrow> Inl e
                | Inr with_done \<Rightarrow>
                    (let meta3 = (if with_done then meta2 @ [Time new_time] else meta2) in
                     case getboolean lib cfg ''results'' ''include_job_id'' of
                       Inl e \<Rightarrow> Inl e
                     | Inr with_id \<Rightarrow> Inr (if with_id then meta3 @ [Job_id job_id] else meta3)))))"

text \<open>Opening a file in mode \<open>at\<close> creates a file that is absent; writing appends.\<close>

definition append_text :: "fs \<Rightarrow> string \<Rightarrow> string \<Rightarrow> fs" where
  "append_text fs name text = fs(name \<mapsto> (case fs name of None \<Rightarrow> [] | Some old \<Rightarrow> old) @ text)"

text \<open>
  Lines 258 to 268: the reduction under \<open>try\<close>. An exception that is an instance of
  \<open>Exception\<close> is logged with \<open>logger.exception\<close>, then the disassembly is logged unless
  producing it fails, and the variable \<open>current\<close> is not assigned: it still names the
  object it named, in the state the call left it in. Any other exception propagates. The
  result is the outcome, the object \<open>result\<close> as the call left it, and the log.
\<close>

definition apply_reduce ::
  "('job, 'g, 'v, 'acc) hooks \<Rightarrow> 'acc \<Rightarrow> 'v list option \<Rightarrow> log_entry list
     \<Rightarrow> (exn + 'acc) \<times> 'v list option \<times> log_entry list" where
  "apply_reduce H current result lg =
     (let r = reduce_function H current result;
          result1 = (case result of None \<Rightarrow> None | Some _ \<Rightarrow> Some (result_left r))
      in case outcome r of
           Inr new_value \<Rightarrow> (Inr new_value, result1, lg)
         | Inl e \<Rightarrow>
             if is_Exception e
             then (Inr (current_left r), result1,
                   lg @ [Reduce_function_messed_up e]
                      @ (case distb H e of None \<Rightarrow> [] | Some text \<Rightarrow> [Disassembly text]))
             else (Inl e, result1, lg))"

text \<open>
  Lines 257 to 293, the body of the loop for one completion \<open>(job_id, result)\<close>, numbered
  \<open>idx\<close>, with the loop variables \<open>(current, last_time)\<close>. The percentage in the first log
  line divides by \<open>len(working_set)\<close>. The file the rows go to is
  \<open>config['results']['file_name']\<close>, with \<open>.gz\<close> appended when \<open>compress\<close> is set; it is
  opened before the metadata are collected.
\<close>

definition handle_completion ::
  "('job, 'g) library \<Rightarrow> ('job, 'g, 'v, 'acc) hooks \<Rightarrow> config \<Rightarrow> real \<Rightarrow> nat \<Rightarrow> nat \<Rightarrow> real
     \<Rightarrow> nat \<times> 'v list option \<Rightarrow> 'acc \<times> real \<Rightarrow> ('job, 'g) world
     \<Rightarrow> (exn + 'acc \<times> real) \<times> ('job, 'g) world" where
  "handle_completion lib H cfg start_time lw idx new_time completion st w =
     (case completion of (job_id, result) \<Rightarrow>
      case st of (current, last_time) \<Rightarrow>
        if lw = 0 then (Inl ZeroDivisionError, w)
        else
          (let w1 = w\<lparr>log := log w @ [Answer_received idx lw]\<rparr> in
           case apply_reduce H current result (log w1) of
             (Inl e, result1, lg) \<Rightarrow> (Inl e, w1\<lparr>log := lg\<rparr>)
           | (Inr current', result1, lg) \<Rightarrow>
               (let w2 = w1\<lparr>log := lg\<rparr>;
                    result' = (case result1 of None \<Rightarrow> [] | Some vs \<Rightarrow> vs)
                in case getboolean lib cfg ''results'' ''compress'' of
                     Inl e \<Rightarrow> (Inl e, w2)
                   | Inr gz \<Rightarrow>
                       (case config_get cfg ''results'' ''file_name'' of
                          Inl e \<Rightarrow> (Inl e, w2)
                        | Inr name \<Rightarrow>
                            (let path = (if gz then name @ ''.gz'' else name);
                                 w3 = w2\<lparr>files := append_text (files w2) path []\<rparr>
                             in case metadata lib cfg start_time last_time new_time job_id of
                                  Inl e \<Rightarrow> (Inl e, w3)
                                | Inr meta \<Rightarrow>
                                    (let row = meta @ map Val result';
                                         w4 = w3\<lparr>files := append_text (files w3) path
                                                               (writerow H row)\<rparr>
                                     in case parse_function H cfg row of
                                          Some e \<Rightarrow> (Inl e, w4)
                                        | None \<Rightarrow> (Inr (current', new_time), w4)))))))"

text \<open>
  The loop over the completions in the order the pool reports them, numbered from
  \<open>idx\<close>. A job that raised surfaces its exception when its completion is fetched.
\<close>

fun consume ::
  "('job, 'g) library \<Rightarrow> ('job, 'g, 'v, 'acc) hooks \<Rightarrow> config \<Rightarrow> nat \<Rightarrow> nat
     \<Rightarrow> (nat \<times> (exn + 'v list option)) list \<Rightarrow> 'acc \<times> real \<Rightarrow> ('job, 'g) world
     \<Rightarrow> (exn + 'acc) \<times> ('job, 'g) world" where
  "consume lib H cfg lw idx [] st w = (Inr (fst st), w)"
| "consume lib H cfg lw idx ((job_id, job_outcome) # rest) st w =
     (case job_outcome of
        Inl e \<Rightarrow> (Inl e, w)
      | Inr result \<Rightarrow>
          (case handle_completion lib H cfg (clock lib 0) lw idx (clock lib idx) (job_id, result) st w of
             (Inl e, w') \<Rightarrow> (Inl e, w')
           | (Inr st', w') \<Rightarrow> consume lib H cfg lw (Suc idx) rest st' w'))"

text \<open>Lines 238 to 294.\<close>

definition execute ::
  "('job, 'g) library \<Rightarrow> ('job, 'g, 'v, 'acc) hooks \<Rightarrow> ('job, 'g) plan \<Rightarrow> 'acc \<Rightarrow> ('job, 'g) world
     \<Rightarrow> (exn + 'acc) \<times> ('job, 'g) world" where
  "execute lib H p reduce_start w =
     (case setup_function H (p_config p) of
        Some e \<Rightarrow> (Inl e, w)
      | None \<Rightarrow>
          (case write_header lib (files w) of
             (Some e, fs') \<Rightarrow> (Inl e, w\<lparr>files := fs'\<rparr>)
           | (None, fs') \<Rightarrow>
               (case pool_options lib (p_config p) of
                  Some e \<Rightarrow> (Inl e, w\<lparr>files := fs'\<rparr>)
                | None \<Rightarrow>
                    (let w1 = w\<lparr>files := fs', submitted := Some (p_indexed_set p)\<rparr>;
                         completions = map (indexed_job (job H)) (arrival lib (p_indexed_set p))
                     in consume lib H (p_config p) (p_lw p) 1 completions
                          (reduce_start, clock lib 0) w1))))"

definition run_jobs ::
  "('job, 'g) library \<Rightarrow> ('job, 'g, 'v, 'acc) hooks \<Rightarrow> 'job list \<Rightarrow> 'acc \<Rightarrow> string option
     \<Rightarrow> ('job, 'g) world \<Rightarrow> (exn + 'acc) \<times> ('job, 'g) world" where
  "run_jobs lib H working_set reduce_start override_seed w =
     (case prepare lib working_set override_seed w of
        (Inl e, w') \<Rightarrow> (Inl e, w')
      | (Inr (p, num_cores), w') \<Rightarrow> execute lib H p reduce_start w')"

section \<open>Reference notions for the properties of \<open>run_jobs\<close>\<close>

text \<open>A result of \<open>None\<close> read as the empty sequence.\<close>

definition result_values :: "'v list option \<Rightarrow> 'v list" where
  "result_values result = (case result of None \<Rightarrow> [] | Some vs \<Rightarrow> vs)"





text \<open>
  Of a prepared run: the order of the job ids in the shuffled list, the jobs in that
  order, the seed, and the indexed jobs that are queued.
\<close>

definition shuffle_order :: "(exn + ('job, 'g) plan \<times> int) \<Rightarrow> (exn + nat list)" where
  "shuffle_order r = (case r of Inl e \<Rightarrow> Inl e | Inr (p, n) \<Rightarrow> Inr (map fst (p_shuffled p)))"


definition seed_of :: "(exn + ('job, 'g) plan \<times> int) \<Rightarrow> (exn + string)" where
  "seed_of r = (case r of Inl e \<Rightarrow> Inl e | Inr (p, n) \<Rightarrow> Inr (p_seed p))"

definition queued :: "(exn + ('job, 'g) plan \<times> int) \<Rightarrow> ('job, 'g) indexed list" where
  "queued r = (case r of Inl e \<Rightarrow> [] | Inr (p, n) \<Rightarrow> p_indexed_set p)"

section \<open>A concrete run\<close>

text \<open>
  A small instance of the parameters, to run the model on: a digest that returns its
  input, a pickle that writes a working set by the function it is given, a generator whose
  state is its seed, a shuffle that rotates by the length of the state, two rosters, text
  that is its bytes, and a pool that reports completions in reverse order.
\<close>

definition example_config :: "bool \<Rightarrow> config" where
  "example_config gz =
     [(''results'', ''compress'') \<mapsto> (if gz then ''true'' else ''false''),
      (''results'', ''include_start_time'') \<mapsto> ''true'',
      (''results'', ''include_job_interval'') \<mapsto> ''false'',
      (''results'', ''include_job_done_time'') \<mapsto> ''false'',
      (''results'', ''include_job_id'') \<mapsto> ''true'',
      (''results'', ''file_name'') \<mapsto> ''results.csv'',
      (''ProgressPool'', ''chunksize'') \<mapsto> ''1'',
      (''ProgressPool'', ''bar_length'') \<mapsto> ''1'',
      (''ProgressPool'', ''style'') \<mapsto> ''1'',
      (''logging'', ''level'') \<mapsto> ''INFO'']"

definition library_with :: "(nat \<Rightarrow> 'job list \<Rightarrow> string) \<Rightarrow> ('job, string) library" where
  "library_with pickle_list =
     \<lparr>sha3_512 = (\<lambda>bytes. bytes),
      dumps = (\<lambda>state extras. Inr (concat (map (pickle_list state) extras))),
      Random = (\<lambda>seed. seed),
      shuffle = (\<lambda>g xs. (rotate (length g) xs, g @ ''+'')),
      json_decode = (\<lambda>text. if text = ''zero'' then Inr [(''A'', 0, 4)]
                             else Inr [(''A'', 1, 2), (''B'', 3, 2)]),
      read_config = (\<lambda>default_text bytes. Inr (example_config (bytes = ''compress''))),
      default_config = [],
      read_text = (\<lambda>bytes. Inr bytes),
      write_text = (\<lambda>text. text),
      boolean_of = (\<lambda>v. if v = ''true'' then Some True else if v = ''false'' then Some False
                          else None),
      py_int = (\<lambda>resp. if resp = ''0'' then Some 0 else if resp = ''1'' then Some 1 else None),
      Style = (\<lambda>style. None),
      cpu_count = 4,
      clock = real,
      arrival = rev\<rparr>"

text \<open>Jobs whose argument is a number, pickled to nothing.\<close>

definition example_library :: "(nat, string) library" where
  "example_library = library_with (\<lambda>state working_set. [])"

text \<open>
  Jobs whose argument is a string. The pickle writes an object in full once and refers to
  it afterwards, and whether equal arguments are one object is part of the state of the
  interpreter (here: in an even state every argument is an object of its own, in an odd
  state equal arguments are one object, written once).
\<close>

definition memo_pickle :: "nat \<Rightarrow> string list \<Rightarrow> string" where
  "memo_pickle state working_set = concat (if even state then working_set else remdups working_set)"

fun cell_text :: "nat cell \<Rightarrow> string" where
  "cell_text (Time t) = ''t''"
| "cell_text (Job_id k) = ''j''"
| "cell_text (Val v) = ''v''"

definition example_hooks_with ::
  "(nat \<Rightarrow> nat list option \<Rightarrow> (nat, nat) reduction) \<Rightarrow> (nat, string, nat, nat) hooks" where
  "example_hooks_with reducer =
     \<lparr>job = (\<lambda>items random_obj cfg. Inr (if items = 0 then None else Some [items, items + 1])),
      setup_function = (\<lambda>cfg. None),
      parse_function = (\<lambda>cfg row. None),
      reduce_function = reducer,
      distb = (\<lambda>e. None),
      writerow = (\<lambda>row. concat (map cell_text row) @ '';'')\<rparr>"

text \<open>Hooks whose reduction function leaves the objects it is given as they are.\<close>

definition example_hooks ::
  "(nat \<Rightarrow> nat list option \<Rightarrow> exn + nat) \<Rightarrow> (nat, string, nat, nat) hooks" where
  "example_hooks reducer =
     example_hooks_with
       (\<lambda>current result.
          \<lparr>outcome = reducer current result, current_left = current,
           result_left = result_values result\<rparr>)"

definition example_world :: "string \<Rightarrow> string \<Rightarrow> string \<Rightarrow> string list \<Rightarrow> ('job, string) world" where
  "example_world machines_text header_text runner_text responses =
     \<lparr>files = [MACHINES_CONFIG \<mapsto> machines_text, CSV_HEADER \<mapsto> header_text,
               RUNNER_CONFIG \<mapsto> runner_text, LOG_TEMPLATE \<mapsto> []],
      interpreter = 0,
      inputs = responses, console = [], log = [], submitted = None\<rparr>"

text \<open>
  Reduction functions: one that raises on every call; one that leaves the process
  (\<open>exit(1)\<close>); one that counts the call in the accumulator object and then raises; one
  that returns a count and empties the result it was given (\<open>result.clear()\<close>).
\<close>

definition always_raises :: "nat \<Rightarrow> nat list option \<Rightarrow> exn + nat" where
  "always_raises current result = Inl (Exception ''boom'')"

definition exits :: "nat \<Rightarrow> nat list option \<Rightarrow> exn + nat" where
  "exits current result = Inl (SystemExit 1)"

definition counts_then_raises :: "nat \<Rightarrow> nat list option \<Rightarrow> (nat, nat) reduction" where
  "counts_then_raises current result =
     \<lparr>outcome = Inl (Exception ''boom''), current_left = Suc current,
      result_left = result_values result\<rparr>"

definition clears_result :: "nat \<Rightarrow> nat list option \<Rightarrow> (nat, nat) reduction" where
  "clears_result current result =
     \<lparr>outcome = Inr (Suc current), current_left = current, result_left = []\<rparr>"

section \<open>Log archiver (\<open>zipped_logs.py\<close>)\<close>

text \<open>
  A file on disk is plain bytes or a zip archive, the list of its entries (name and
  content) in the order they were written. The bytes of an archive, which are read when
  an archive is opened as a plain file, are a parameter \<open>zip_bytes\<close>.
\<close>

datatype disk_file = Plain string | Archive "(string \<times> string) list"

type_synonym disk = "string \<Rightarrow> disk_file option"

text \<open>
  The attributes of the handler that the code and the rollover read, and its flag
  \<open>__closed\<close>.
\<close>

record handler =
  baseFilename :: string
  backupCount :: nat
  delay :: bool
  was_closed :: bool

text \<open>\<open>os.path.basename\<close>: what follows the last slash.\<close>

definition path_basename :: "string \<Rightarrow> string" where
  "path_basename path = rev (takeWhile (\<lambda>c. c \<noteq> CHR ''/'') (rev path))"

text \<open>\<open>str(i)\<close> of a natural number, and \<open>s.zfill(width)\<close> of a string of digits.\<close>

function str_nat :: "nat \<Rightarrow> string" where
  "str_nat n = (if n < 10 then [char_of (48 + n)]
                else str_nat (n div 10) @ [char_of (48 + n mod 10)])"
  by pat_completeness auto
termination
  by (relation "measure id") auto

declare str_nat.simps [simp del]

definition zfill :: "nat \<Rightarrow> string \<Rightarrow> string" where
  "zfill width s = replicate (width - length s) (CHR ''0'') @ s"

definition rotation_filename :: "string \<Rightarrow> string" where
  "rotation_filename s = s @ ''.zip''"

text \<open>\<open>"%s.%d.zip" % (self.baseFilename, i)\<close>\<close>

definition numbered_archive :: "string \<Rightarrow> nat \<Rightarrow> string" where
  "numbered_archive base i = base @ ''.'' @ str_nat i @ ''.zip''"

text \<open>\<open>path.basename(basename + '.' + str(i).zfill(max_digits))\<close>\<close>

definition numbered_entry :: "string \<Rightarrow> nat \<Rightarrow> nat \<Rightarrow> string" where
  "numbered_entry basename max_digits i =
     path_basename (basename @ ''.'' @ zfill max_digits (str_nat i))"

text \<open>\<open>open(name, 'rb').read()\<close>\<close>

definition read_raw :: "((string \<times> string) list \<Rightarrow> string) \<Rightarrow> disk \<Rightarrow> string \<Rightarrow> exn + string" where
  "read_raw zip_bytes d name =
     (case d name of
        None \<Rightarrow> Inl FileNotFoundError
      | Some (Plain content) \<Rightarrow> Inr content
      | Some (Archive entries) \<Rightarrow> Inr (zip_bytes entries))"

text \<open>\<open>ZipFile.read(name)\<close>: the entry of that name written last, \<open>KeyError\<close> without one.\<close>

definition archive_read :: "(string \<times> string) list \<Rightarrow> string \<Rightarrow> string option" where
  "archive_read entries name = map_of (rev entries) name"

text \<open>
  The loop of \<open>close\<close>, \<open>for i in range(1, self.backupCount)\<close>, with \<open>count\<close> iterations
  left from \<open>i\<close> on: the entries written to \<open>dest\<close> so far and the disk. It stops at
  the first numbered archive that does not exist.
\<close>

fun merge_rotations ::
  "string \<Rightarrow> string \<Rightarrow> nat \<Rightarrow> nat \<Rightarrow> nat \<Rightarrow> (string \<times> string) list \<Rightarrow> disk
     \<Rightarrow> exn option \<times> (string \<times> string) list \<times> disk" where
  "merge_rotations base basename max_digits 0 i dest d = (None, dest, d)"
| "merge_rotations base basename max_digits (Suc count) i dest d =
     (let fn = numbered_archive base i in
      case d fn of
        None \<Rightarrow> (None, dest, d)
      | Some (Plain _) \<Rightarrow> (Some BadZipFile, dest, d)
      | Some (Archive src) \<Rightarrow>
          (case archive_read src basename of
             None \<Rightarrow> (Some KeyError, dest, d)
           | Some content \<Rightarrow>
               merge_rotations base basename max_digits count (Suc i)
                 (dest @ [(numbered_entry basename max_digits i, content)]) (d(fn := None))))"

text \<open>
  \<open>close\<close>. The archive \<open>baseFilename + '.zip'\<close> is created empty when it is opened for
  writing and holds the entries written to it when the \<open>with\<close> block is left, also when
  the block is left by an exception; \<open>__closed\<close> is set only when no exception was raised.
\<close>

definition close_handler ::
  "((string \<times> string) list \<Rightarrow> string) \<Rightarrow> handler \<Rightarrow> disk \<Rightarrow> exn option \<times> handler \<times> disk" where
  "close_handler zip_bytes h d =
     (if was_closed h then (None, h, d)
      else
        (let zip_name = baseFilename h @ ''.zip'';
             d1 = d(zip_name \<mapsto> Archive []);
             basename = path_basename (baseFilename h)
         in case read_raw zip_bytes d1 (baseFilename h) of
              Inl e \<Rightarrow> (Some e, h, d1)
            | Inr content \<Rightarrow>
                (let dest = [(basename, content)];
                     d2 = d1(baseFilename h := None);
                     max_digits = length (str_nat (backupCount h))
                 in case merge_rotations (baseFilename h) basename max_digits
                           (backupCount h - 1) 1 dest d2 of
                      (err, dest', d3) \<Rightarrow>
                        (let d4 = d3(zip_name \<mapsto> Archive dest') in
                         case err of
                           Some e \<Rightarrow> (Some e, h, d4)
                         | None \<Rightarrow> (None, h\<lparr>was_closed := True\<rparr>, d4)))))"

text \<open>\<open>os.rename\<close>\<close>

definition rename_file :: "string \<Rightarrow> string \<Rightarrow> disk \<Rightarrow> exn option \<times> disk" where
  "rename_file source dest d =
     (case d source of
        None \<Rightarrow> (Some FileNotFoundError, d)
      | Some f \<Rightarrow> (None, (d(source := None))(dest \<mapsto> f)))"

text \<open>\<open>rotator\<close>\<close>

definition rotator ::
  "((string \<times> string) list \<Rightarrow> string) \<Rightarrow> handler \<Rightarrow> string \<Rightarrow> string \<Rightarrow> disk \<Rightarrow> exn option \<times> disk" where
  "rotator zip_bytes h source dest d =
     (if source = baseFilename h then
        (case read_raw zip_bytes d source of
           Inl e \<Rightarrow> (Some e, d)
         | Inr content \<Rightarrow>
             (let d1 = d(dest \<mapsto> Archive [(path_basename (baseFilename h), content)])
              in (None, d1(source := None))))
      else rename_file source dest d)"

text \<open>
  The rollover of \<open>logging.handlers.RotatingFileHandler\<close> in the Python standard library,
  which calls \<open>rotation_filename\<close> and \<open>rotator\<close>: the numbered files move up by one, from
  the highest down, each replacing what is at its new name; the current log is rotated to
  number 1; unless \<open>delay\<close> is set, the stream is opened again, which creates an empty
  log.
\<close>

fun shift_backups :: "string \<Rightarrow> nat \<Rightarrow> disk \<Rightarrow> disk" where
  "shift_backups base 0 d = d"
| "shift_backups base (Suc i) d =
     (let sfn = rotation_filename (base @ ''.'' @ str_nat (Suc i));
          dfn = rotation_filename (base @ ''.'' @ str_nat (Suc (Suc i)))
      in shift_backups base i
           (case d sfn of None \<Rightarrow> d | Some f \<Rightarrow> (d(sfn := None))(dfn \<mapsto> f)))"

definition reopen :: "handler \<Rightarrow> disk \<Rightarrow> disk" where
  "reopen h d =
     (if delay h then d
      else (case d (baseFilename h) of None \<Rightarrow> d(baseFilename h \<mapsto> Plain []) | Some _ \<Rightarrow> d))"

definition doRollover ::
  "((string \<times> string) list \<Rightarrow> string) \<Rightarrow> handler \<Rightarrow> disk \<Rightarrow> exn option \<times> disk" where
  "doRollover zip_bytes h d =
     (if 0 < backupCount h then
        (let d1 = shift_backups (baseFilename h) (backupCount h - 1) d;
             dfn = rotation_filename (baseFilename h @ ''.1'');
             d2 = d1(dfn := None)
         in case rotator zip_bytes h (baseFilename h) dfn d2 of
              (Some e, d3) \<Rightarrow> (Some e, d3)
            | (None, d3) \<Rightarrow> (None, reopen h d3))
      else (None, reopen h d))"

text \<open>Writing a record to the stream of the current log.\<close>

definition write_log ::
  "((string \<times> string) list \<Rightarrow> string) \<Rightarrow> handler \<Rightarrow> string \<Rightarrow> disk \<Rightarrow> disk" where
  "write_log zip_bytes h text d =
     d(baseFilename h \<mapsto>
         Plain ((case d (baseFilename h) of
                   None \<Rightarrow> []
                 | Some (Plain content) \<Rightarrow> content
                 | Some (Archive entries) \<Rightarrow> zip_bytes entries) @ text))"

text \<open>A record is written and the log rolls over, for each text in turn.\<close>

fun write_and_rotate ::
  "((string \<times> string) list \<Rightarrow> string) \<Rightarrow> handler \<Rightarrow> string list \<Rightarrow> disk \<Rightarrow> exn option \<times> disk" where
  "write_and_rotate zip_bytes h [] d = (None, d)"
| "write_and_rotate zip_bytes h (text # texts) d =
     (case doRollover zip_bytes h (write_log zip_bytes h text d) of
        (Some e, d') \<Rightarrow> (Some e, d')
      | (None, d') \<Rightarrow> write_and_rotate zip_bytes h texts d')"

definition example_handler :: handler where
  "example_handler =
     \<lparr>baseFilename = ''/tmp/run.log'', backupCount = 3, delay = False, was_closed = False\<rparr>"

text \<open>
  Reference notions for the archiver: the number a string of decimal digits denotes; a
  numbered archive that, if it exists, is a zip archive holding an entry named like the
  log; and the disk after three records were each followed by a rollover and a fourth
  record was written, for a handler with \<open>backupCount = 3\<close>.
\<close>

definition decimal_value :: "string \<Rightarrow> nat" where
  "decimal_value s = foldl (\<lambda>a c. 10 * a + (of_char c - 48)) 0 s"

definition well_formed_rotation :: "disk \<Rightarrow> string \<Rightarrow> nat \<Rightarrow> bool" where
  "well_formed_rotation d base j =
     (case d (numbered_archive base j) of
        None \<Rightarrow> True
      | Some (Plain _) \<Rightarrow> False
      | Some (Archive src) \<Rightarrow> archive_read src (path_basename base) \<noteq> None)"

definition three_rotations :: disk where
  "three_rotations =
     write_log (\<lambda>entries. []) example_handler ''four''
       (snd (write_and_rotate (\<lambda>entries. []) example_handler [''one'', ''two'', ''three'']
          [''/tmp/run.log'' \<mapsto> Plain []]))"

section \<open>Properties of the partition planner\<close>

lemma py_slice_to_take:
  "i \<le> length xs \<Longrightarrow> py_slice_to xs (int i) = take i xs"
  by (simp add: py_slice_to_def py_slice_def py_norm_def Let_def)

lemma partition_bounds_boundary:
  assumes "sum_list W \<noteq> 0" and "i < length W"
  shows "partition_bounds W (int i) L = Inr (boundary W L i, boundary W L (Suc i))"
proof -
  have a: "py_slice_to W (int i) = take i W"
    using assms(2) by (simp add: py_slice_to_take)
  have "py_slice_to W (int (Suc i)) = take (Suc i) W"
    using assms(2) by (intro py_slice_to_take) simp
  moreover have "int (Suc i) = int i + 1" by simp
  ultimately have b: "py_slice_to W (int i + 1) = take (Suc i) W"
    by (simp only:)
  show ?thesis
    using assms(1) unfolding partition_bounds_def Let_def a b
    by (simp add: py_floordiv_def boundary_def)
qed

lemma sum_list_take_mono:
  assumes "\<forall>w\<in>set W. (0::int) \<le> w" and "i \<le> j"
  shows "sum_list (take i W) \<le> sum_list (take j W)"
proof -
  have "take j W = take i W @ take (j - i) (drop i W)"
    using assms(2) by (metis le_add_diff_inverse take_add)
  moreover have "0 \<le> sum_list (take (j - i) (drop i W))"
    using assms(1) by (intro sum_list_nonneg) (auto dest: in_set_takeD in_set_dropD)
  ultimately show ?thesis by simp
qed

lemma boundary_mono:
  assumes "\<forall>w\<in>set W. (0::int) \<le> w" and "0 < sum_list W" and "i \<le> j"
  shows "boundary W L i \<le> boundary W L j"
  unfolding boundary_def
  using assms by (intro zdiv_mono1 mult_right_mono sum_list_take_mono) auto

lemma boundary_0: "boundary W L 0 = 0"
  by (simp add: boundary_def)

lemma boundary_length: "0 < sum_list W \<Longrightarrow> boundary W L (length W) = int L"
  by (simp add: boundary_def)

lemma boundary_zero_weight:
  assumes "i < length W" and "W ! i = 0"
  shows "boundary W L (Suc i) = boundary W L i"
  using assms by (simp add: boundary_def take_Suc_conv_app_nth)

lemma range_of_boundary:
  assumes "sum_list W \<noteq> 0" and "i < length W"
  shows "range_of W L i = {boundary W L i..<boundary W L (Suc i)}"
  using partition_bounds_boundary [OF assms] by (simp add: range_of_def)

lemma boundary_cover:
  assumes "\<forall>w\<in>set W. (0::int) \<le> w" and "0 < sum_list W" and "n \<le> length W"
  shows "(\<Union>i<n. {boundary W L i..<boundary W L (Suc i)}) = {0..<boundary W L n}"
  using assms(3)
proof (induction n)
  case 0
  then show ?case by (simp add: boundary_0)
next
  case (Suc n)
  have le: "boundary W L n \<le> boundary W L (Suc n)"
    using assms(1,2) by (intro boundary_mono) auto
  have ge: "0 \<le> boundary W L n"
    using boundary_mono [OF assms(1,2), of 0 n L] by (simp add: boundary_0)
  have "(\<Union>i<Suc n. {boundary W L i..<boundary W L (Suc i)})
      = {0..<boundary W L n} \<union> {boundary W L n..<boundary W L (Suc n)}"
    using Suc by (simp add: lessThan_Suc Un_commute)
  also have "\<dots> = {0..<boundary W L (Suc n)}"
    using le ge by auto
  finally show ?case .
qed

lemma boundary_disjoint:
  assumes "\<forall>w\<in>set W. (0::int) \<le> w" and "0 < sum_list W" and "i < j"
  shows "{boundary W L i..<boundary W L (Suc i)} \<inter> {boundary W L j..<boundary W L (Suc j)} = {}"
proof -
  have "boundary W L (Suc i) \<le> boundary W L j"
    using assms by (intro boundary_mono) auto
  then show ?thesis by auto
qed

text \<open>
  Claim C1. For non-negative integer weights \<open>W\<close> with a positive sum and any item count
  \<open>L\<close>, the code gives machine \<open>i\<close> the range from \<open>floor(sum(W[0:i]) * L / TOTAL)\<close> to
  \<open>floor(sum(W[0:i+1]) * L / TOTAL)\<close>; these boundaries start at 0, end at \<open>L\<close> and never
  decrease, so consecutive ranges are contiguous; the ranges of two different machines
  are disjoint, the union of all ranges is \<open>[0, L)\<close>, and a machine of weight zero has an
  empty range.
\<close>

theorem partition_ranges_tile:
  assumes "\<forall>w\<in>set W. 0 \<le> w" and "0 < sum_list W"
  shows "(\<forall>i<length W. partition_bounds W (int i) L = Inr (boundary W L i, boundary W L (Suc i)))
       \<and> boundary W L 0 = 0
       \<and> boundary W L (length W) = int L
       \<and> (\<forall>i j. i \<le> j \<longrightarrow> boundary W L i \<le> boundary W L j)
       \<and> (\<forall>i<length W. \<forall>j<length W. i \<noteq> j \<longrightarrow> range_of W L i \<inter> range_of W L j = {})
       \<and> (\<Union>i<length W. range_of W L i) = {0..<int L}
       \<and> (\<forall>i<length W. W ! i = 0 \<longrightarrow> range_of W L i = {})"
proof -
  have nz: "sum_list W \<noteq> 0" using assms(2) by simp
  have c1: "\<forall>i<length W. partition_bounds W (int i) L = Inr (boundary W L i, boundary W L (Suc i))"
    using partition_bounds_boundary [OF nz] by blast
  have c4: "\<forall>i j. i \<le> j \<longrightarrow> boundary W L i \<le> boundary W L j"
    using boundary_mono [OF assms] by blast
  have c5: "\<forall>i<length W. \<forall>j<length W. i \<noteq> j \<longrightarrow> range_of W L i \<inter> range_of W L j = {}"
  proof (intro allI impI)
    fix i j assume ij: "i < length W" "j < length W" "i \<noteq> j"
    consider "i < j" | "j < i" using ij(3) by linarith
    then show "range_of W L i \<inter> range_of W L j = {}"
    proof cases
      case 1
      then show ?thesis
        using boundary_disjoint [OF assms, of i j L] ij
        by (simp add: range_of_boundary [OF nz])
    next
      case 2
      then show ?thesis
        using boundary_disjoint [OF assms, of j i L] ij
        by (simp add: range_of_boundary [OF nz] Int_commute)
    qed
  qed
  have "(\<Union>i<length W. range_of W L i)
      = (\<Union>i<length W. {boundary W L i..<boundary W L (Suc i)})"
    by (simp add: range_of_boundary [OF nz])
  also have "\<dots> = {0..<boundary W L (length W)}"
    using boundary_cover [OF assms, of "length W" L] by simp
  finally have c6: "(\<Union>i<length W. range_of W L i) = {0..<int L}"
    by (simp add: boundary_length [OF assms(2)])
  have c7: "\<forall>i<length W. W ! i = 0 \<longrightarrow> range_of W L i = {}"
    by (simp add: range_of_boundary [OF nz] boundary_zero_weight)
  show ?thesis
    using c1 c4 c5 c6 c7 boundary_0 [of W L] boundary_length [OF assms(2), of L]
    by blast
qed

theorem partition_ranges_tile_witness:
  "list_all (\<lambda>w. 0 \<le> w) [2, 0, 6 :: int] \<and> 0 < sum_list [2, 0, 6 :: int]
   \<and> partition_bounds [2, 0, 6] 0 8 = Inr (0, 2)
   \<and> partition_bounds [2, 0, 6] 1 8 = Inr (2, 2)
   \<and> partition_bounds [2, 0, 6] 2 8 = Inr (2, 8)
   \<and> (\<Union>i<length [2, 0, 6 :: int]. range_of [2, 0, 6] 8 i) = {0..<8}"
proof -
  have h1: "\<forall>w\<in>set [2, 0, 6 :: int]. 0 \<le> w" by simp
  have h2: "0 < sum_list [2, 0, 6 :: int]" by simp
  note t = partition_ranges_tile [OF h1 h2, of 8]
  have u: "(\<Union>i<length [2, 0, 6 :: int]. range_of [2, 0, 6] 8 i) = {0..<8}"
    using t by simp
  have b0: "partition_bounds [2, 0, 6] 0 8 = Inr (0, 2)"
    by (simp add: partition_bounds_def py_slice_to_def py_slice_def py_norm_def py_floordiv_def)
  have b1: "partition_bounds [2, 0, 6] 1 8 = Inr (2, 2)"
    by (simp add: partition_bounds_def py_slice_to_def py_slice_def py_norm_def py_floordiv_def)
  have b2: "partition_bounds [2, 0, 6] 2 8 = Inr (2, 8)"
    by (simp add: partition_bounds_def py_slice_to_def py_slice_def py_norm_def py_floordiv_def)
  have h1': "list_all (\<lambda>w. 0 \<le> w) [2, 0, 6 :: int]" by simp
  show ?thesis using h1' h2 u b0 b1 b2 by blast
qed

text \<open>
  Claim C8. With weights computed as thread weight times thread count, the roster
  \<open>{"A": [1,4], "B": [1,4]}\<close> and 10 items give machine A the range \<open>[0,5)\<close> and machine B
  the range \<open>[5,10)\<close>; the roster \<open>{"A": [1,2], "B": [3,2]}\<close> has weights 2 and 6 and, with
  8 items, gives A the range \<open>[0,2)\<close> and B the range \<open>[2,8)\<close>.
\<close>

theorem partition_examples:
  "partition_bounds (weights_of [(''A'', 1, 4), (''B'', 1, 4)]) 0 10 = Inr (0, 5)
   \<and> partition_bounds (weights_of [(''A'', 1, 4), (''B'', 1, 4)]) 1 10 = Inr (5, 10)
   \<and> weights_of [(''A'', 1, 2), (''B'', 3, 2)] = [2, 6]
   \<and> partition_bounds (weights_of [(''A'', 1, 2), (''B'', 3, 2)]) 0 8 = Inr (0, 2)
   \<and> partition_bounds (weights_of [(''A'', 1, 2), (''B'', 3, 2)]) 1 8 = Inr (2, 8)"
  by (simp add: weights_of_def partition_bounds_def py_slice_to_def py_slice_def py_norm_def
      py_floordiv_def)


section \<open>Properties of the preparation\<close>

lemma create_missing_flag:
  "create_missing enc xs fs a = (fs', b) \<Longrightarrow> a \<Longrightarrow> b"
  by (induction xs arbitrary: fs a) (auto split: option.splits)

lemma create_missing_none:
  "create_missing enc xs fs a = (fs', False) \<Longrightarrow> fs' = fs \<and> (\<forall>x\<in>set xs. fs (fst x) \<noteq> None)"
proof (induction xs arbitrary: fs a)
  case Nil
  then show ?case by simp
next
  case (Cons x xs)
  obtain name template where x: "x = (name, template)" by (cases x)
  show ?case
  proof (cases "fs name")
    case None
    with Cons.prems x have "create_missing enc xs (fs(name \<mapsto> enc template)) True = (fs', False)"
      by simp
    then show ?thesis using create_missing_flag by blast
  next
    case (Some c)
    with Cons.prems x have "create_missing enc xs fs a = (fs', False)" by simp
    from Cons.IH [OF this] show ?thesis using Some x by auto
  qed
qed

lemma make_config_files_ok:
  assumes "make_config_files lib fs = (None, fs')"
  shows "fs' = fs \<and> (\<forall>name\<in>set CONFIGS. fs name \<noteq> None)"
proof -
  obtain b where c: "create_missing (write_text lib)
      (zip CONFIGS (CONFIG_TEMPLATES (default_config lib))) fs False = (fs', b)" and "\<not> b"
    using assms by (auto simp: make_config_files_def split: prod.splits if_splits)
  then have "create_missing (write_text lib)
      (zip CONFIGS (CONFIG_TEMPLATES (default_config lib))) fs False = (fs', False)"
    by simp
  then have "fs' = fs \<and> (\<forall>x\<in>set (zip CONFIGS (CONFIG_TEMPLATES (default_config lib))). fs (fst x) \<noteq> None)"
    by (rule create_missing_none)
  moreover have "map fst (zip CONFIGS (CONFIG_TEMPLATES (default_config lib))) = CONFIGS"
    by (simp add: CONFIGS_def CONFIG_TEMPLATES_def)
  ultimately show ?thesis
    by (metis (no_types, lifting) image_iff list.set_map)
qed

lemma load_configuration_ok:
  assumes "load_configuration lib w = (Inr (machines, cfg), wa)"
  shows "files wa = files w \<and> inputs wa = inputs w \<and> console wa = console w
       \<and> submitted wa = submitted w \<and> interpreter wa = interpreter w
       \<and> (\<forall>name\<in>set CONFIGS. files w name \<noteq> None)
       \<and> get_machines lib (files w) = Inr machines
       \<and> get_config lib (files w) = Inr cfg"
proof -
  obtain fs' where m: "make_config_files lib (files w) = (None, fs')"
    using assms
    by (auto simp: load_configuration_def Let_def split: prod.splits option.splits sum.splits)
  from make_config_files_ok [OF m] have fs: "fs' = files w" "\<forall>name\<in>set CONFIGS. files w name \<noteq> None"
    by auto
  show ?thesis
    using assms m fs
    by (auto simp: load_configuration_def Let_def split: prod.splits option.splits sum.splits)
qed

lemma ask_identity_ok:
  assumes "ask_identity lib names w = (r, wb)"
  shows "files wb = files w \<and> submitted wb = submitted w \<and> interpreter wb = interpreter w
       \<and> r = fst (which_node (py_int lib) (inputs w))"
  using assms
  by (auto simp: ask_identity_def Let_def split: prod.splits option.splits sum.splits)

lemma feed_configs_some:
  "\<forall>name\<in>set names. fs name \<noteq> None \<Longrightarrow>
     feed_configs fs names fed = Inr (fed @ concat (map (\<lambda>name. case fs name of None \<Rightarrow> [] | Some c \<Rightarrow> c) names))"
  by (induction names arbitrary: fed) (auto simp: read_bytes_def)

lemma feed_configs_cong:
  "\<forall>name\<in>set names. fs1 name = fs2 name \<Longrightarrow> feed_configs fs1 names fed = feed_configs fs2 names fed"
  by (induction names arbitrary: fed) (auto simp: read_bytes_def split: option.splits)

lemma get_entropy_cong:
  assumes "\<forall>name\<in>set CONFIGS. fs1 name = fs2 name"
    and "dumps lib s1 extras = dumps lib s2 extras"
  shows "get_entropy lib fs1 s1 extras = get_entropy lib fs2 s2 extras"
  unfolding get_entropy_def feed_configs_cong [OF assms(1)] assms(2) ..

lemma get_entropy_ok:
  assumes "\<forall>name\<in>set CONFIGS. fs name \<noteq> None"
  shows "(\<exists>e. get_entropy lib fs state extras = Inl e \<and> dumps lib state extras = Inl e)
       \<or> (\<exists>entropy pickled. get_entropy lib fs state extras = Inr entropy
              \<and> dumps lib state extras = Inr pickled)"
  by (cases "dumps lib state extras") (simp_all add: get_entropy_def feed_configs_some [OF assms])

lemma plan_partition_ok:
  assumes "plan_partition lib ws ov machines cfg ID w = (Inr p, wc)"
  shows "files wc = files w \<and> inputs wc = inputs w \<and> console wc = console w
       \<and> submitted wc = submitted w
       \<and> get_entropy lib (files w) (interpreter w) [ws] = Inr (p_entropy p)
       \<and> Entropy (p_entropy p) \<in> set (log wc)
       \<and> p_seed p = choose_seed ov (p_entropy p)
       \<and> p_config p = cfg \<and> p_ID p = ID \<and> p_lw p = length ws
       \<and> p_shuffled p = shuffle_working_set lib (p_seed p) cfg ws
       \<and> select_partition (weights_of machines) ID (length ws) (p_shuffled p)
            = Inr (p_indexed_set p, p_START p, p_STOP p)"
  using assms
  by (auto simp: plan_partition_def Let_def split: prod.splits sum.splits if_splits)

lemma plan_partition_err:
  assumes "plan_partition lib ws ov machines cfg ID w = (r, wc)"
  shows "submitted wc = submitted w"
  using assms
  by (auto simp: plan_partition_def Let_def split: prod.splits sum.splits if_splits)




lemma prepare_ok:
  assumes "prepare lib ws ov w = (Inr (p, n), w')"
  shows "\<exists>machines wa wb wc.
           load_configuration lib w = (Inr (machines, p_config p), wa)
         \<and> ask_identity lib (map fst machines) wa = (Inr (p_ID p), wb)
         \<and> plan_partition lib ws ov machines (p_config p) (p_ID p) wb = (Inr p, wc)
         \<and> confirm lib machines p wc = (Inr n, w')"
proof -
  obtain machines cfg wa where 1: "load_configuration lib w = (Inr (machines, cfg), wa)"
    using assms by (auto simp: prepare_def split: prod.splits sum.splits)
  obtain ID wb where 2: "ask_identity lib (map fst machines) wa = (Inr ID, wb)"
    using assms 1 by (auto simp: prepare_def split: prod.splits sum.splits)
  obtain p' wc where 3: "plan_partition lib ws ov machines cfg ID wb = (Inr p', wc)"
    using assms 1 2 by (auto simp: prepare_def split: prod.splits sum.splits)
  obtain n' where 4: "confirm lib machines p' wc = (Inr n', w')" and pn: "p' = p" "n' = n"
    using assms 1 2 3 by (auto simp: prepare_def split: prod.splits sum.splits)
  have "p_config p = cfg" "p_ID p = ID"
    using plan_partition_ok [OF 3] pn by auto
  then show ?thesis using 1 2 3 4 pn by blast
qed





lemma load_configuration_submitted:
  assumes "load_configuration lib w = (r, wa)"
  shows "submitted wa = submitted w"
  using assms
  by (auto simp: load_configuration_def Let_def split: prod.splits option.splits sum.splits)

lemma partition_bounds_zero_total:
  "sum_list weights = 0 \<Longrightarrow> partition_bounds weights ID lw = Inl ZeroDivisionError"
  by (simp add: partition_bounds_def py_floordiv_def)

lemma index_working_set_random:
  "x \<in> set (index_working_set g cfg ws) \<Longrightarrow> fst (snd (snd x)) = g"
  by (auto simp: index_working_set_def copy_random_def)

lemma py_slice_subset: "set (py_slice xs a b) \<subseteq> set xs"
  by (auto simp: py_slice_def Let_def dest: in_set_takeD in_set_dropD)

lemma select_partition_subset:
  "select_partition weights ID lw xs = Inr (ys, START, STOP) \<Longrightarrow> set ys \<subseteq> set xs"
  using py_slice_subset
  by (fastforce simp: select_partition_def split: option.splits sum.splits prod.splits)


section \<open>Properties of the completion loop\<close>











section \<open>Properties of the shuffle\<close>



section \<open>The concrete run\<close>

lemmas example_defs =
  run_jobs_def prepare_def load_configuration_def make_config_files_def
  CONFIGS_def CONFIG_TEMPLATES_def MACHINES_CONFIG_def CSV_HEADER_def RUNNER_CONFIG_def
  LOG_TEMPLATE_def RESULTS_CSV_def get_machines_def get_config_def level_number_def
  read_bytes_def config_get_def getboolean_def config_int_def
  ask_identity_def plan_partition_def get_entropy_def choose_seed_def seed_is_override_def
  shuffle_working_set_def index_working_set_def copy_random_def select_partition_def
  partition_bounds_def py_slice_to_def py_slice_def py_norm_def py_floordiv_def py_index_def
  confirm_def identity_entry_def lower_startswith_def execute_def write_header_def
  pool_options_def indexed_job_def handle_completion_def apply_reduce_def metadata_def
  append_text_def result_values_def library_with_def example_library_def memo_pickle_def
  example_hooks_with_def example_hooks_def example_world_def example_config_def
  always_raises_def exits_def counts_then_raises_def clears_result_def
  weights_of_def Let_def enumerate_eq_zip shuffle_order_def seed_of_def queued_def

lemma example_prepare:
  "\<exists>p n w'. prepare example_library [1, 0, 3] None (example_world ''m'' ''a,b'' [] [''N/A'', ''y''])
       = (Inr (p, n), w')"
  by (simp add: example_defs)




lemma example_plan:
  "prepare example_library [1, 0, 3] None (example_world ''m'' ''a,b'' [] [''N/A'', ''y''])
       = (Inr (p, n), w') \<Longrightarrow>
   p_seed p = ''ma,b'' \<and> length (p_indexed_set p) = 3
   \<and> map (\<lambda>x. (fst x, fst (snd x))) (p_indexed_set p) = [(1, 0), (2, 3), (0, 1)]
   \<and> p_config p = (example_config False)((''logging'', ''level'') \<mapsto> ''20'')"
  by (auto simp: example_defs)




lemma example_prepare_memo:
  "\<exists>p n w'. prepare (library_with memo_pickle) [''ab'', ''ab'', ''c''] None
       (example_world ''m'' ''a,b'' [] [''N/A'', ''y'']) = (Inr (p, n), w')"
  by (simp add: example_defs)

lemma example_prepare_memo_b:
  "\<exists>p n w'. prepare (library_with memo_pickle) [''ab'', ''ab'', ''c''] None
       ((example_world ''m'' ''a,b'' [] [''1'', ''y''])
          \<lparr>interpreter := 2, log := [Checking_configuration_files]\<rparr>) = (Inr (p, n), w')"
  by (simp add: example_defs)



section \<open>The claims about \<open>run_jobs\<close>\<close>







text \<open>
  Claim C4, amended. Two runs whose configuration files are byte-identical, whose working
  sets and override seeds are the same and whose working set is pickled to the same bytes
  in both interpreters derive the same entropy, the same seed and the same shuffled list,
  whatever else differs between them (other files, the console responses, the log); the
  entropy is the digest of the four configuration files, in their declared order,
  followed by the pickled working set, and of nothing else.
\<close>

theorem shuffle_is_reproducible:
  assumes "\<forall>name\<in>set CONFIGS. files w1 name = files w2 name"
    and "dumps lib (interpreter w1) [ws] = dumps lib (interpreter w2) [ws]"
    and "prepare lib ws ov w1 = (Inr (p1, n1), w1')"
    and "prepare lib ws ov w2 = (Inr (p2, n2), w2')"
  shows "get_entropy lib (files w1) (interpreter w1) [ws]
           = get_entropy lib (files w2) (interpreter w2) [ws]
       \<and> p_entropy p1 = p_entropy p2
       \<and> p_seed p1 = p_seed p2
       \<and> p_shuffled p1 = p_shuffled p2
       \<and> (\<exists>a b c d pickled.
             files w1 MACHINES_CONFIG = Some a \<and> files w1 CSV_HEADER = Some b
             \<and> files w1 RUNNER_CONFIG = Some c \<and> files w1 LOG_TEMPLATE = Some d
             \<and> dumps lib (interpreter w1) [ws] = Inr pickled
             \<and> p_entropy p1 = sha3_512 lib (a @ b @ c @ d @ pickled))"
proof -
  obtain m1 wa1 wb1 wc1 where 1:
    "load_configuration lib w1 = (Inr (m1, p_config p1), wa1)"
    "ask_identity lib (map fst m1) wa1 = (Inr (p_ID p1), wb1)"
    "plan_partition lib ws ov m1 (p_config p1) (p_ID p1) wb1 = (Inr p1, wc1)"
    using prepare_ok [OF assms(3)] by blast
  obtain m2 wa2 wb2 wc2 where 2:
    "load_configuration lib w2 = (Inr (m2, p_config p2), wa2)"
    "ask_identity lib (map fst m2) wa2 = (Inr (p_ID p2), wb2)"
    "plan_partition lib ws ov m2 (p_config p2) (p_ID p2) wb2 = (Inr p2, wc2)"
    using prepare_ok [OF assms(4)] by blast
  have f1: "files wb1 = files w1" "interpreter wb1 = interpreter w1"
    using load_configuration_ok [OF 1(1)] ask_identity_ok [OF 1(2)] by simp_all
  have f2: "files wb2 = files w2" "interpreter wb2 = interpreter w2"
    using load_configuration_ok [OF 2(1)] ask_identity_ok [OF 2(2)] by simp_all
  have ge: "get_entropy lib (files w1) (interpreter w1) [ws]
          = get_entropy lib (files w2) (interpreter w2) [ws]"
    using assms(1,2) by (rule get_entropy_cong)
  have e1: "get_entropy lib (files w1) (interpreter w1) [ws] = Inr (p_entropy p1)"
    using plan_partition_ok [OF 1(3)] f1 by simp
  have e2: "get_entropy lib (files w2) (interpreter w2) [ws] = Inr (p_entropy p2)"
    using plan_partition_ok [OF 2(3)] f2 by simp
  have ent: "p_entropy p1 = p_entropy p2" using ge e1 e2 by simp
  have seed: "p_seed p1 = p_seed p2"
    using plan_partition_ok [OF 1(3)] plan_partition_ok [OF 2(3)] ent by simp
  have "RUNNER_CONFIG \<in> set CONFIGS" by (simp add: CONFIGS_def)
  then have "get_config lib (files w1) = get_config lib (files w2)"
    using assms(1) by (simp add: get_config_def)
  then have cfg: "p_config p1 = p_config p2"
    using load_configuration_ok [OF 1(1)] load_configuration_ok [OF 2(1)] by simp
  have sh: "p_shuffled p1 = p_shuffled p2"
    using plan_partition_ok [OF 1(3)] plan_partition_ok [OF 2(3)] seed cfg by simp
  have ex: "\<forall>name\<in>set CONFIGS. files w1 name \<noteq> None"
    using load_configuration_ok [OF 1(1)] by simp
  then obtain a b c d where abcd: "files w1 MACHINES_CONFIG = Some a" "files w1 CSV_HEADER = Some b"
      "files w1 RUNNER_CONFIG = Some c" "files w1 LOG_TEMPLATE = Some d"
    by (auto simp: CONFIGS_def)
  obtain pickled where pk: "dumps lib (interpreter w1) [ws] = Inr pickled"
    using e1 get_entropy_ok [OF ex, of lib "interpreter w1" "[ws]"] by auto
  have "get_entropy lib (files w1) (interpreter w1) [ws]
          = Inr (sha3_512 lib (a @ b @ c @ d @ pickled))"
    using abcd pk by (simp add: get_entropy_def CONFIGS_def read_bytes_def)
  then have "p_entropy p1 = sha3_512 lib (a @ b @ c @ d @ pickled)"
    using e1 by simp
  then show ?thesis using ge ent seed sh abcd pk by blast
qed

theorem shuffle_is_reproducible_witness:
  "seed_of (fst (prepare (library_with memo_pickle) [''ab'', ''ab'', ''c''] None
       (example_world ''m'' ''a,b'' [] [''N/A'', ''y''])))
   = seed_of (fst (prepare (library_with memo_pickle) [''ab'', ''ab'', ''c''] None
       ((example_world ''m'' ''a,b'' [] [''1'', ''y''])
          \<lparr>interpreter := 2, log := [Checking_configuration_files]\<rparr>)))
   \<and> shuffle_order (fst (prepare (library_with memo_pickle) [''ab'', ''ab'', ''c''] None
       (example_world ''m'' ''a,b'' [] [''N/A'', ''y''])))
   = shuffle_order (fst (prepare (library_with memo_pickle) [''ab'', ''ab'', ''c''] None
       ((example_world ''m'' ''a,b'' [] [''1'', ''y''])
          \<lparr>interpreter := 2, log := [Checking_configuration_files]\<rparr>)))"
proof -
  let ?W1 = "example_world ''m'' ''a,b'' [] [''N/A'', ''y''] :: (string, string) world"
  let ?W2 = "(example_world ''m'' ''a,b'' [] [''1'', ''y''])
               \<lparr>interpreter := 2, log := [Checking_configuration_files]\<rparr> :: (string, string) world"
  let ?ws = "[''ab'', ''ab'', ''c'']"
  obtain p1 n1 w1 where a: "prepare (library_with memo_pickle) ?ws None ?W1 = (Inr (p1, n1), w1)"
    using example_prepare_memo by blast
  obtain p2 n2 w2 where b: "prepare (library_with memo_pickle) ?ws None ?W2 = (Inr (p2, n2), w2)"
    using example_prepare_memo_b by blast
  have c: "\<forall>name\<in>set CONFIGS. files ?W1 name = files ?W2 name"
    by (simp add: example_world_def)
  have d: "dumps (library_with memo_pickle) (interpreter ?W1) [?ws]
         = dumps (library_with memo_pickle) (interpreter ?W2) [?ws]"
    by (simp add: example_world_def library_with_def memo_pickle_def)
  have "p_seed p1 = p_seed p2 \<and> p_shuffled p1 = p_shuffled p2"
    using shuffle_is_reproducible [OF c d a b] by blast
  then show ?thesis unfolding a b shuffle_order_def seed_of_def by simp
qed

text \<open>
  The claim C4 as stated fails: the equal working sets \<open>['ab', 'ab', 'c']\<close> are pickled to
  different bytes by an interpreter that holds the two equal arguments as two objects and
  by one that holds them as one object; the seeds differ, and so do the shuffle orders.
\<close>

theorem pickle_of_equal_working_sets_counterexample:
  "seed_of (fst (prepare (library_with memo_pickle) [''ab'', ''ab'', ''c''] None
       (example_world ''m'' ''a,b'' [] [''N/A'', ''y''])))
     = Inr ''ma,bababc''
   \<and> seed_of (fst (prepare (library_with memo_pickle) [''ab'', ''ab'', ''c''] None
       ((example_world ''m'' ''a,b'' [] [''N/A'', ''y''])\<lparr>interpreter := 1\<rparr>)))
     = Inr ''ma,babc''
   \<and> shuffle_order (fst (prepare (library_with memo_pickle) [''ab'', ''ab'', ''c''] None
       (example_world ''m'' ''a,b'' [] [''N/A'', ''y''])))
     = Inr [0, 1, 2]
   \<and> shuffle_order (fst (prepare (library_with memo_pickle) [''ab'', ''ab'', ''c''] None
       ((example_world ''m'' ''a,b'' [] [''N/A'', ''y''])\<lparr>interpreter := 1\<rparr>)))
     = Inr [1, 2, 0]"
  by (simp add: example_defs)




text \<open>
  Claim C5, amended. When the weights of a roster that loads sum to zero and the operator
  enters a machine index, \<open>run_jobs\<close> ends with an exception and no job has been handed to
  the pool; the exception is \<open>ZeroDivisionError\<close> whenever the working set can be pickled
  (the entropy is derived before the division).
\<close>

theorem zero_total_weight_with_identity:
  assumes "submitted w = None"
    and "load_configuration lib w = (Inr (machines, cfg), wa)"
    and "sum_list (weights_of machines) = 0"
    and "fst (which_node (py_int lib) (inputs w)) = Inr (Some ID)"
  shows "(\<exists>e. fst (run_jobs lib H ws reduce_start ov w) = Inl e)
       \<and> submitted (snd (run_jobs lib H ws reduce_start ov w)) = None
       \<and> (\<forall>pickled. dumps lib (interpreter w) [ws] = Inr pickled \<longrightarrow>
             fst (run_jobs lib H ws reduce_start ov w) = Inl ZeroDivisionError)"
proof -
  note l = load_configuration_ok [OF assms(2)]
  obtain r wb where ai: "ask_identity lib (map fst machines) wa = (r, wb)"
    by (cases "ask_identity lib (map fst machines) wa") auto
  have r: "r = Inr (Some ID)" using ask_identity_ok [OF ai] l assms(4) by simp
  have fb: "files wb = files w" "submitted wb = None" "interpreter wb = interpreter w"
    using ask_identity_ok [OF ai] l assms(1) by simp_all
  have ex: "\<forall>name\<in>set CONFIGS. files wb name \<noteq> None" using l fb by simp
  obtain r' wc where pp: "plan_partition lib ws ov machines cfg (Some ID) wb = (r', wc)"
    by (cases "plan_partition lib ws ov machines cfg (Some ID) wb") auto
  have sc: "submitted wc = None" using plan_partition_err [OF pp] fb by simp
  have r'1: "\<exists>e. r' = Inl e"
    using pp assms(3) get_entropy_ok [OF ex, of lib "interpreter wb" "[ws]"]
    by (auto simp: plan_partition_def Let_def select_partition_def partition_bounds_zero_total
        split: if_splits)
  have r'2: "\<And>pickled. dumps lib (interpreter w) [ws] = Inr pickled \<Longrightarrow> r' = Inl ZeroDivisionError"
    using pp assms(3) get_entropy_ok [OF ex, of lib "interpreter wb" "[ws]"] fb(3)
    by (auto simp: plan_partition_def Let_def select_partition_def partition_bounds_zero_total
        split: if_splits)
  obtain e where e: "r' = Inl e" using r'1 by blast
  have "prepare lib ws ov w = (Inl e, wc)"
    using assms(2) ai r pp e by (simp add: prepare_def)
  then have "run_jobs lib H ws reduce_start ov w = (Inl e, wc)"
    by (simp add: run_jobs_def)
  then show ?thesis using sc e r'2 by auto
qed

theorem zero_total_weight_with_identity_witness:
  "fst (run_jobs example_library (example_hooks always_raises) [1, 0, 3] 7 None
         (example_world ''zero'' ''a,b'' [] [''0'', ''y''])) = Inl ZeroDivisionError
   \<and> submitted (snd (run_jobs example_library (example_hooks always_raises) [1, 0, 3] 7 None
         (example_world ''zero'' ''a,b'' [] [''0'', ''y'']))) = None"
proof -
  let ?W = "example_world ''zero'' ''a,b'' [] [''0'', ''y''] :: (nat, string) world"
  have h1: "submitted ?W = None" by (simp add: example_world_def)
  obtain wa where h2: "load_configuration example_library ?W
      = (Inr ([(''A'', 0, 4)], (example_config False)((''logging'', ''level'') \<mapsto> ''20'')), wa)"
    by (simp add: example_defs)
  have h3: "sum_list (weights_of [(''A'', 0, 4)]) = 0" by (simp add: weights_of_def)
  have h4: "fst (which_node (py_int example_library) (inputs ?W)) = Inr (Some 0)"
    by (simp add: example_library_def library_with_def example_world_def)
  have h5: "dumps example_library (interpreter ?W) [[1, 0, 3]] = Inr []"
    by (simp add: example_library_def library_with_def)
  show ?thesis
    using zero_total_weight_with_identity [OF h1 h2 h3 h4, of "example_hooks always_raises"
        "[1, 0, 3]" 7 None] h5
    by simp
qed

text \<open>
  The claim C5 as stated fails without an identity: with the roster \<open>{"A": [0, 4]}\<close>, whose
  weights sum to zero, and the response \<open>N/A\<close>, the run returns its accumulator and all
  three jobs have been handed to the pool.
\<close>

theorem zero_total_weight_without_identity_counterexample:
  "get_machines example_library (files (example_world ''zero'' ''a,b'' [] [''N/A'', ''y'']))
     = Inr [(''A'', 0, 4)]
   \<and> sum_list (weights_of [(''A'', 0, 4)]) = 0
   \<and> fst (run_jobs example_library (example_hooks always_raises) [1, 0, 3] 7 None
         (example_world ''zero'' ''a,b'' [] [''N/A'', ''y''])) = Inr 7
   \<and> map_option (map fst) (submitted (snd (run_jobs example_library (example_hooks always_raises)
         [1, 0, 3] 7 None (example_world ''zero'' ''a,b'' [] [''N/A'', ''y''])))) = Some [1, 2, 0]"
  by (simp add: example_defs)

text \<open>
  Claim C10. The copies of the random source are taken from the generator in the state
  the seed puts it in, and the shuffle is run on that list afterwards, starting from the
  same state: every indexed job, before the shuffle, after it and in the cut that is
  queued, carries the state of a generator freshly seeded with the run's seed (provided
  that the shuffle returns elements of the list it is given).
\<close>

theorem random_copies_share_initial_state:
  assumes "prepare lib ws ov w = (Inr (p, n), w')"
    and "\<forall>g xs. set (fst (shuffle lib g xs)) \<subseteq> set xs"
  shows "p_shuffled p = fst (shuffle lib (Random lib (p_seed p))
                               (index_working_set (Random lib (p_seed p)) (p_config p) ws))
       \<and> (\<forall>x\<in>set (index_working_set (Random lib (p_seed p)) (p_config p) ws).
             fst (snd (snd x)) = Random lib (p_seed p))
       \<and> (\<forall>x\<in>set (p_shuffled p). fst (snd (snd x)) = Random lib (p_seed p))
       \<and> (\<forall>x\<in>set (p_indexed_set p). fst (snd (snd x)) = Random lib (p_seed p))"
proof -
  obtain machines wb wc where pp:
    "plan_partition lib ws ov machines (p_config p) (p_ID p) wb = (Inr p, wc)"
    using prepare_ok [OF assms(1)] by blast
  note a = plan_partition_ok [OF pp]
  let ?g = "Random lib (p_seed p)"
  let ?xs = "index_working_set ?g (p_config p) ws"
  have sh: "p_shuffled p = fst (shuffle lib ?g ?xs)"
    using a by (simp add: shuffle_working_set_def Let_def)
  have 1: "\<forall>x\<in>set ?xs. fst (snd (snd x)) = ?g"
    by (auto dest: index_working_set_random)
  have "set (p_shuffled p) \<subseteq> set ?xs" using sh assms(2) by simp
  then have 2: "\<forall>x\<in>set (p_shuffled p). fst (snd (snd x)) = ?g" using 1 by blast
  have "set (p_indexed_set p) \<subseteq> set (p_shuffled p)"
    using a select_partition_subset by blast
  then have 3: "\<forall>x\<in>set (p_indexed_set p). fst (snd (snd x)) = ?g" using 2 by blast
  show ?thesis using sh 1 2 3 by blast
qed

theorem random_copies_share_initial_state_witness:
  "list_all (\<lambda>x. fst (snd (snd x)) = ''ma,b'')
     (queued (fst (prepare example_library [1, 0, 3] None
        (example_world ''m'' ''a,b'' [] [''N/A'', ''y'']))))
   \<and> length (queued (fst (prepare example_library [1, 0, 3] None
        (example_world ''m'' ''a,b'' [] [''N/A'', ''y''])))) = 3"
proof -
  let ?W = "example_world ''m'' ''a,b'' [] [''N/A'', ''y''] :: (nat, string) world"
  obtain p n w1 where a: "prepare example_library [1, 0, 3] None ?W = (Inr (p, n), w1)"
    using example_prepare by blast
  have s: "\<forall>g xs. set (fst (shuffle example_library g xs)) \<subseteq> set xs"
    by (simp add: example_library_def library_with_def)
  have "\<forall>x\<in>set (p_indexed_set p). fst (snd (snd x)) = Random example_library (p_seed p)"
    using random_copies_share_initial_state [OF a s] by blast
  moreover have "p_seed p = ''ma,b''" "length (p_indexed_set p) = 3"
    using example_plan [OF a] by simp_all
  moreover have "Random example_library ''ma,b'' = ''ma,b''"
    by (simp add: example_library_def library_with_def)
  ultimately show ?thesis
    unfolding a queued_def by (simp add: list_all_iff)
qed

text \<open>
  Claim C7. With compression enabled and the file name \<open>results.csv\<close>, the header line is
  written to \<open>results.csv\<close> and the rows to \<open>results.csv.gz\<close>: the file that holds the
  rows has no header line, and the file that holds the header has no rows.
\<close>

theorem header_and_rows_in_different_files:
  "fst (run_jobs example_library (example_hooks (\<lambda>current result. Inr (Suc current))) [1, 0, 3] 7 None
         (example_world ''m'' ''a,b'' ''compress'' [''N/A'', ''y''])) = Inr 10
   \<and> files (snd (run_jobs example_library (example_hooks (\<lambda>current result. Inr (Suc current)))
         [1, 0, 3] 7 None (example_world ''m'' ''a,b'' ''compress'' [''N/A'', ''y''])))
       ''results.csv'' = Some (''a,b'' @ [CHR 0x0A])
   \<and> files (snd (run_jobs example_library (example_hooks (\<lambda>current result. Inr (Suc current)))
         [1, 0, 3] 7 None (example_world ''m'' ''a,b'' ''compress'' [''N/A'', ''y''])))
       ''results.csv.gz'' = Some ''tjvv;tj;tjvv;''"
  by (simp add: example_defs)

section \<open>Properties of the log archiver\<close>

lemma of_char_digit: "d < 10 \<Longrightarrow> of_char (char_of (48 + d :: nat)) = 48 + d"
  by (simp add: of_char_of)

lemma decimal_value_snoc:
  "decimal_value (s @ [c]) = 10 * decimal_value s + (of_char c - 48)"
  by (simp add: decimal_value_def)

lemma decimal_value_str_nat: "decimal_value (str_nat n) = n"
proof (induction n rule: str_nat.induct)
  case (1 n)
  show ?case
  proof (cases "n < 10")
    case True
    then show ?thesis
      by (subst str_nat.simps) (simp add: decimal_value_def of_char_digit)
  next
    case False
    have m: "n mod 10 < 10" by simp
    have "decimal_value (str_nat n) = 10 * decimal_value (str_nat (n div 10)) + n mod 10"
      using False
      by (subst str_nat.simps) (simp add: decimal_value_snoc of_char_digit [OF m])
    then show ?thesis using 1 False by simp
  qed
qed

lemma str_nat_inj: "str_nat i = str_nat j \<Longrightarrow> i = j"
  by (metis decimal_value_str_nat)

lemma decimal_value_zeros: "decimal_value (replicate k (CHR ''0'') @ s) = decimal_value s"
  by (induction k) (simp_all add: decimal_value_def)

lemma zfill_str_nat_inj: "zfill w (str_nat i) = zfill w (str_nat j) \<Longrightarrow> i = j"
  by (metis decimal_value_zeros decimal_value_str_nat zfill_def)

lemma str_nat_no_slash: "CHR ''/'' \<notin> set (str_nat n)"
proof (induction n rule: str_nat.induct)
  case (1 n)
  have d: "\<And>k. k < 10 \<Longrightarrow> char_of (48 + k :: nat) \<noteq> CHR ''/''"
  proof
    fix k :: nat assume k: "k < 10" and "char_of (48 + k) = CHR ''/''"
    then have "of_char (char_of (48 + k) :: char) = (of_char (CHR ''/'') :: nat)" by simp
    then show False using k by (simp add: of_char_of)
  qed
  show ?case
  proof (cases "n < 10")
    case True
    then show ?thesis using d [of n] by (subst str_nat.simps) auto
  next
    case False
    have "n mod 10 < 10" by simp
    then show ?thesis using 1 False d [of "n mod 10"] by (subst str_nat.simps) auto
  qed
qed

lemma path_basename_no_slash: "CHR ''/'' \<notin> set (path_basename path)"
  by (auto simp: path_basename_def dest: set_takeWhileD)

lemma path_basename_id:
  assumes "CHR ''/'' \<notin> set s"
  shows "path_basename s = s"
proof -
  have "takeWhile (\<lambda>c. c \<noteq> CHR ''/'') (rev s) = rev s"
    using assms by (intro takeWhile_eq_all_conv [THEN iffD2]) auto
  then show ?thesis unfolding path_basename_def by (simp only: rev_rev_ident)
qed

lemma numbered_entry_eq:
  "numbered_entry (path_basename base) w i
     = path_basename base @ ''.'' @ zfill w (str_nat i)"
  unfolding numbered_entry_def
  by (rule path_basename_id) (auto simp: path_basename_no_slash str_nat_no_slash zfill_def)

lemma numbered_entry_inj:
  "numbered_entry (path_basename base) w i = numbered_entry (path_basename base) w j \<Longrightarrow> i = j"
  by (simp add: numbered_entry_eq zfill_str_nat_inj)

lemma numbered_entry_not_basename:
  "numbered_entry (path_basename base) w i \<noteq> path_basename base"
  by (simp add: numbered_entry_eq)

lemma numbered_archive_inj: "numbered_archive base i = numbered_archive base j \<Longrightarrow> i = j"
  by (simp add: numbered_archive_def str_nat_inj)

lemma numbered_archive_not_zip: "numbered_archive base i \<noteq> base @ ''.zip''"
proof
  assume "numbered_archive base i = base @ ''.zip''"
  then have "length (numbered_archive base i) = length (base @ ''.zip'')" by simp
  then show False by (simp add: numbered_archive_def)
qed

lemma numbered_archive_not_base: "numbered_archive base i \<noteq> base"
proof
  assume "numbered_archive base i = base"
  then have "length (numbered_archive base i) = length base" by simp
  then show False by (simp add: numbered_archive_def)
qed

lemma zip_not_base: "base @ ''.zip'' \<noteq> base"
  by simp

lemma merge_rotations_ok:
  assumes "\<forall>j. i \<le> j \<and> j < i + count \<longrightarrow> well_formed_rotation d base j"
  shows "\<exists>m added d'.
           merge_rotations base (path_basename base) w count i dest d = (None, dest @ added, d')
         \<and> m \<le> count \<and> length added = m
         \<and> map fst added = map (\<lambda>k. numbered_entry (path_basename base) w (i + k)) [0..<m]
         \<and> (\<forall>k<m. \<exists>src. d (numbered_archive base (i + k)) = Some (Archive src)
                  \<and> archive_read src (path_basename base) = Some (snd (added ! k)))
         \<and> (\<forall>k<m. d' (numbered_archive base (i + k)) = None)
         \<and> (\<forall>path. (\<forall>k<m. path \<noteq> numbered_archive base (i + k)) \<longrightarrow> d' path = d path)
         \<and> (m < count \<longrightarrow> d (numbered_archive base (i + m)) = None)"
  using assms
proof (induction count arbitrary: i dest d)
  case 0
  show ?case by (intro exI [of _ 0] exI [of _ "[]"] exI [of _ d]) simp
next
  case (Suc count)
  let ?fn = "numbered_archive base i"
  let ?bn = "path_basename base"
  show ?case
  proof (cases "d ?fn")
    case None
    then show ?thesis
      by (intro exI [of _ 0] exI [of _ "[]"] exI [of _ d]) simp
  next
    case (Some f)
    have "well_formed_rotation d base i" using Suc.prems by simp
    then obtain src content where f: "f = Archive src" and c: "archive_read src ?bn = Some content"
      using Some by (auto simp: well_formed_rotation_def split: disk_file.splits)
    let ?e = "(numbered_entry ?bn w i, content)"
    let ?d = "d(?fn := None)"
    have same: "?d (numbered_archive base j) = d (numbered_archive base j)" if "j \<noteq> i" for j
    proof -
      have "numbered_archive base j \<noteq> ?fn"
        using that numbered_archive_inj [of base j i] by blast
      then show ?thesis by simp
    qed
    have wf: "\<forall>j. Suc i \<le> j \<and> j < Suc i + count \<longrightarrow> well_formed_rotation ?d base j"
    proof (intro allI impI)
      fix j assume j: "Suc i \<le> j \<and> j < Suc i + count"
      then have "well_formed_rotation d base j" using Suc.prems by simp
      moreover have "j \<noteq> i" using j by simp
      ultimately show "well_formed_rotation ?d base j"
        using same [of j] by (simp add: well_formed_rotation_def)
    qed
    from Suc.IH [OF wf, of "dest @ [?e]"]
    obtain m added d' where ih:
      "merge_rotations base ?bn w count (Suc i) (dest @ [?e]) ?d = (None, (dest @ [?e]) @ added, d')"
      "m \<le> count" "length added = m"
      "map fst added = map (\<lambda>k. numbered_entry ?bn w (Suc i + k)) [0..<m]"
      "\<forall>k<m. \<exists>src. ?d (numbered_archive base (Suc i + k)) = Some (Archive src)
                  \<and> archive_read src ?bn = Some (snd (added ! k))"
      "\<forall>k<m. d' (numbered_archive base (Suc i + k)) = None"
      "\<forall>path. (\<forall>k<m. path \<noteq> numbered_archive base (Suc i + k)) \<longrightarrow> d' path = ?d path"
      "m < count \<longrightarrow> ?d (numbered_archive base (Suc i + m)) = None"
      by blast
    have run: "merge_rotations base ?bn w (Suc count) i dest d = (None, dest @ (?e # added), d')"
      using Some f c ih(1) by (simp add: Let_def)
    have names: "map fst (?e # added) = map (\<lambda>k. numbered_entry ?bn w (i + k)) [0..<Suc m]"
    proof -
      have "[0..<Suc m] = 0 # map Suc [0..<m]"
        by (simp add: upt_conv_Cons map_Suc_upt del: upt_Suc)
      then show ?thesis using ih(4) by (simp add: comp_def del: upt_Suc)
    qed
    have contents: "\<forall>k<Suc m. \<exists>src. d (numbered_archive base (i + k)) = Some (Archive src)
                  \<and> archive_read src ?bn = Some (snd ((?e # added) ! k))"
    proof (intro allI impI)
      fix k assume k: "k < Suc m"
      show "\<exists>src. d (numbered_archive base (i + k)) = Some (Archive src)
                  \<and> archive_read src ?bn = Some (snd ((?e # added) ! k))"
      proof (cases k)
        case 0
        then show ?thesis using Some f c by simp
      next
        case (Suc k')
        then have "k' < m" using k by simp
        then obtain src' where s: "?d (numbered_archive base (Suc i + k')) = Some (Archive src')"
            "archive_read src' ?bn = Some (snd (added ! k'))"
          using ih(5) by blast
        have "?d (numbered_archive base (Suc i + k')) = d (numbered_archive base (Suc i + k'))"
          by (rule same) simp
        then have "d (numbered_archive base (Suc i + k')) = Some (Archive src')"
          using s(1) by (simp only:)
        then have "d (numbered_archive base (i + k)) = Some (Archive src')
            \<and> archive_read src' ?bn = Some (snd ((?e # added) ! k))"
          using s(2) Suc by simp
        then show ?thesis by blast
      qed
    qed
    have removed: "\<forall>k<Suc m. d' (numbered_archive base (i + k)) = None"
    proof (intro allI impI)
      fix k assume k: "k < Suc m"
      show "d' (numbered_archive base (i + k)) = None"
      proof (cases k)
        case 0
        have "\<forall>k<m. ?fn \<noteq> numbered_archive base (Suc i + k)"
        proof (intro allI impI notI)
          fix k assume "?fn = numbered_archive base (Suc i + k)"
          then have "i = Suc i + k" by (rule numbered_archive_inj)
          then show False by simp
        qed
        then have "d' ?fn = ?d ?fn" using ih(7) [rule_format, of ?fn] by simp
        then show ?thesis using 0 by simp
      next
        case (Suc k')
        then show ?thesis using ih(6) k by simp
      qed
    qed
    have frame: "\<forall>path. (\<forall>k<Suc m. path \<noteq> numbered_archive base (i + k)) \<longrightarrow> d' path = d path"
    proof (intro allI impI)
      fix path assume p: "\<forall>k<Suc m. path \<noteq> numbered_archive base (i + k)"
      then have "path \<noteq> ?fn" using p [rule_format, of 0] by simp
      moreover have "\<forall>k<m. path \<noteq> numbered_archive base (Suc i + k)"
      proof (intro allI impI)
        fix k assume "k < m"
        then have "path \<noteq> numbered_archive base (i + Suc k)"
          using p [rule_format, of "Suc k"] by simp
        then show "path \<noteq> numbered_archive base (Suc i + k)" by simp
      qed
      ultimately show "d' path = d path" using ih(7) [rule_format, of path] by simp
    qed
    have stop: "Suc m < Suc count \<longrightarrow> d (numbered_archive base (i + Suc m)) = None"
    proof
      assume "Suc m < Suc count"
      then have "?d (numbered_archive base (Suc i + m)) = None" using ih(8) by simp
      moreover have "?d (numbered_archive base (Suc i + m)) = d (numbered_archive base (Suc i + m))"
        by (rule same) simp
      ultimately show "d (numbered_archive base (i + Suc m)) = None" by simp
    qed
    have le: "Suc m \<le> Suc count" using ih(2) by simp
    have len: "length (?e # added) = Suc m" using ih(3) by simp
    show ?thesis
      apply (rule exI [of _ "Suc m"], rule exI [of _ "?e # added"], rule exI [of _ d'])
      apply (intro conjI)
             apply (rule run le len names contents removed frame stop)+
      done
  qed
qed

lemma distinct_entry_names:
  "distinct (path_basename base # map (\<lambda>k. numbered_entry (path_basename base) w (i + k)) [0..<m])"
proof -
  have "inj_on (\<lambda>k. numbered_entry (path_basename base) w (i + k)) (set [0..<m])"
    by (rule inj_onI) (auto dest: numbered_entry_inj)
  then have "distinct (map (\<lambda>k. numbered_entry (path_basename base) w (i + k)) [0..<m])"
    by (simp add: distinct_map)
  moreover have "path_basename base \<notin> set (map (\<lambda>k. numbered_entry (path_basename base) w (i + k)) [0..<m])"
  proof
    assume "path_basename base \<in> set (map (\<lambda>k. numbered_entry (path_basename base) w (i + k)) [0..<m])"
    then obtain k where "path_basename base = numbered_entry (path_basename base) w (i + k)"
      by auto
    then show False using numbered_entry_not_basename [of base w "i + k"] by simp
  qed
  ultimately show ?thesis by simp
qed

text \<open>
  When a handler that is not yet closed is closed while its current log exists and the
  numbered archives below \<open>backupCount\<close> are well formed, \<open>close\<close> succeeds; the archive
  \<open>baseFilename + '.zip'\<close> then holds the content of the current log under the log's own
  name, followed by the rotations numbered 1 to \<open>m\<close>, where \<open>m \<le> backupCount - 1\<close> is the
  number of consecutive numbered archives the loop found; the entry names are distinct;
  the archives numbered 1 to \<open>m\<close> have been removed and no plaintext log remains. The
  archive numbered \<open>backupCount\<close> is not among those the loop looks at.
\<close>

lemma close_merges_consecutive_rotations:
  assumes "\<not> was_closed h"
    and "read_raw zip_bytes d (baseFilename h) = Inr content"
    and "\<forall>j. 1 \<le> j \<and> j < backupCount h \<longrightarrow> well_formed_rotation d (baseFilename h) j"
  shows "\<exists>h' d' entries m.
           close_handler zip_bytes h d = (None, h', d') \<and> was_closed h'
         \<and> d' (baseFilename h @ ''.zip'') = Some (Archive entries)
         \<and> m \<le> backupCount h - 1 \<and> length entries = Suc m
         \<and> entries ! 0 = (path_basename (baseFilename h), content)
         \<and> (\<forall>k<m. \<exists>src. d (numbered_archive (baseFilename h) (Suc k)) = Some (Archive src)
                  \<and> archive_read src (path_basename (baseFilename h)) = Some (snd (entries ! Suc k)))
         \<and> distinct (map fst entries)
         \<and> d' (baseFilename h) = None
         \<and> (\<forall>k<m. d' (numbered_archive (baseFilename h) (Suc k)) = None)
         \<and> (m < backupCount h - 1 \<longrightarrow> d (numbered_archive (baseFilename h) (Suc m)) = None)"
proof -
  let ?base = "baseFilename h"
  let ?bn = "path_basename ?base"
  let ?zip = "?base @ ''.zip''"
  let ?w = "length (str_nat (backupCount h))"
  let ?d1 = "d(?zip \<mapsto> Archive [])"
  let ?d2 = "?d1(?base := None)"
  have rd: "read_raw zip_bytes ?d1 ?base = Inr content"
    using assms(2) by (simp add: read_raw_def)
  have d2num: "?d2 (numbered_archive ?base j) = d (numbered_archive ?base j)" for j
    using numbered_archive_not_zip [of ?base j] numbered_archive_not_base [of ?base j] by simp
  have wf: "\<forall>j. 1 \<le> j \<and> j < 1 + (backupCount h - 1) \<longrightarrow> well_formed_rotation ?d2 ?base j"
  proof (intro allI impI)
    fix j assume "1 \<le> j \<and> j < 1 + (backupCount h - 1)"
    then have "1 \<le> j \<and> j < backupCount h" by linarith
    then have "well_formed_rotation d ?base j" using assms(3) by blast
    then show "well_formed_rotation ?d2 ?base j"
      unfolding well_formed_rotation_def d2num .
  qed
  from merge_rotations_ok [OF wf, of ?w "[(?bn, content)]"]
  obtain m added d3 where mr:
    "merge_rotations ?base ?bn ?w (backupCount h - 1) 1 [(?bn, content)] ?d2
       = (None, [(?bn, content)] @ added, d3)"
    "m \<le> backupCount h - 1" "length added = m"
    "map fst added = map (\<lambda>k. numbered_entry ?bn ?w (1 + k)) [0..<m]"
    "\<forall>k<m. \<exists>src. ?d2 (numbered_archive ?base (1 + k)) = Some (Archive src)
                  \<and> archive_read src ?bn = Some (snd (added ! k))"
    "\<forall>k<m. d3 (numbered_archive ?base (1 + k)) = None"
    "\<forall>path. (\<forall>k<m. path \<noteq> numbered_archive ?base (1 + k)) \<longrightarrow> d3 path = ?d2 path"
    "m < backupCount h - 1 \<longrightarrow> ?d2 (numbered_archive ?base (1 + m)) = None"
    by blast
  let ?entries = "(?bn, content) # added"
  let ?d4 = "d3(?zip \<mapsto> Archive ?entries)"
  have run: "close_handler zip_bytes h d = (None, h\<lparr>was_closed := True\<rparr>, ?d4)"
    using assms(1) rd mr(1) by (simp add: close_handler_def Let_def)
  have c1: "was_closed (h\<lparr>was_closed := True\<rparr>)" by simp
  have c2: "?d4 ?zip = Some (Archive ?entries)" by simp
  have c3: "length ?entries = Suc m" using mr(3) by simp
  have c4: "?entries ! 0 = (?bn, content)" by simp
  have c5: "\<forall>k<m. \<exists>src. d (numbered_archive ?base (Suc k)) = Some (Archive src)
                  \<and> archive_read src ?bn = Some (snd (?entries ! Suc k))"
    using mr(5) unfolding d2num by simp
  have c6: "distinct (map fst ?entries)"
    using distinct_entry_names [of ?base ?w 1 m] mr(4) by simp
  have "\<forall>k<m. ?base \<noteq> numbered_archive ?base (1 + k)"
    using numbered_archive_not_base [of ?base] by (intro allI impI) (rule not_sym)
  then have "d3 ?base = ?d2 ?base" using mr(7) [rule_format, of ?base] by simp
  then have c7: "?d4 ?base = None" by simp
  have c8: "\<forall>k<m. ?d4 (numbered_archive ?base (Suc k)) = None"
    using mr(6) numbered_archive_not_zip [of ?base] by simp
  have c9: "m < backupCount h - 1 \<longrightarrow> d (numbered_archive ?base (Suc m)) = None"
    using mr(8) unfolding d2num by simp
  show ?thesis
    apply (rule exI [of _ "h\<lparr>was_closed := True\<rparr>"], rule exI [of _ ?d4],
        rule exI [of _ ?entries], rule exI [of _ m])
    apply (intro conjI)
              apply (rule run c1 c2 mr(2) c3 c4 c5 c6 c7 c8 c9)+
    done
qed

lemma three_rotations_files:
  "three_rotations ''/tmp/run.log'' = Some (Plain ''four'')"
  "three_rotations ''/tmp/run.log.1.zip'' = Some (Archive [(''run.log'', ''three'')])"
  "three_rotations ''/tmp/run.log.2.zip'' = Some (Archive [(''run.log'', ''two'')])"
  "three_rotations ''/tmp/run.log.3.zip'' = Some (Archive [(''run.log'', ''one'')])"
  "three_rotations ''/tmp/run.log.zip'' = None"
  by code_simp+

text \<open>
  Claim C9. A handler with \<open>backupCount = 3\<close> rolls over three times, a fourth record is
  written, and the handler is closed. \<open>close\<close> succeeds, no plaintext log remains and the
  archive \<open>run.log.zip\<close> holds three distinct entries, but it is not the only zip
  container: the rollover keeps the archives numbered 1 to \<open>backupCount\<close>, the loop of
  \<open>close\<close> is \<open>range(1, self.backupCount)\<close>, and the archive \<open>run.log.3.zip\<close> of the oldest
  rotation is neither merged nor removed.
\<close>

theorem close_leaves_the_oldest_archive:
  "three_rotations ''/tmp/run.log.3.zip'' = Some (Archive [(''run.log'', ''one'')])
   \<and> fst (close_handler (\<lambda>entries. []) example_handler three_rotations) = None
   \<and> snd (snd (close_handler (\<lambda>entries. []) example_handler three_rotations)) ''/tmp/run.log''
       = None
   \<and> snd (snd (close_handler (\<lambda>entries. []) example_handler three_rotations)) ''/tmp/run.log.zip''
       = Some (Archive [(''run.log'', ''four''), (''run.log.1'', ''three''), (''run.log.2'', ''two'')])
   \<and> snd (snd (close_handler (\<lambda>entries. []) example_handler three_rotations)) ''/tmp/run.log.1.zip''
       = None
   \<and> snd (snd (close_handler (\<lambda>entries. []) example_handler three_rotations)) ''/tmp/run.log.2.zip''
       = None
   \<and> snd (snd (close_handler (\<lambda>entries. []) example_handler three_rotations)) ''/tmp/run.log.3.zip''
       = Some (Archive [(''run.log'', ''one'')])"
  by code_simp

end
